theory Spec2Isabelle
  imports Complex_Main
begin

section \<open>Numeric values and exceptions\<close>

text \<open>
  The analysers compute with numpy and pandas \<open>float64\<close> values. A float is modelled as
  an exact real number or one of the three IEEE-754 special values, so that a division by
  zero is a value of the model (\<open>NaN\<close> or an infinity, as numpy returns it with a warning)
  and not an unspecified HOL term. Finite results are computed exactly over the reals:
  the rounding of \<open>float64\<close> and overflow to infinity are outside this model. Every
  denominator of the code is a count or a sum of this kind whose zero is \<open>+0.0\<close>, so the
  sign of zero is not modelled either.
\<close>

datatype npfloat = Fin real | PInf | NInf | NaN

datatype py_error = ValueError | KeyError string | ReError

fun np_neg :: "npfloat \<Rightarrow> npfloat" where
  "np_neg (Fin a) = Fin (- a)"
| "np_neg PInf = NInf"
| "np_neg NInf = PInf"
| "np_neg NaN = NaN"

fun np_add :: "npfloat \<Rightarrow> npfloat \<Rightarrow> npfloat" where
  "np_add NaN _ = NaN"
| "np_add _ NaN = NaN"
| "np_add (Fin a) (Fin b) = Fin (a + b)"
| "np_add PInf NInf = NaN"
| "np_add NInf PInf = NaN"
| "np_add PInf _ = PInf"
| "np_add _ PInf = PInf"
| "np_add NInf _ = NInf"
| "np_add _ NInf = NInf"

definition np_sub :: "npfloat \<Rightarrow> npfloat \<Rightarrow> npfloat" where
  "np_sub a b = np_add a (np_neg b)"

text \<open>The sign of a product or quotient with an infinite operand.\<close>

definition signed_inf :: "bool \<Rightarrow> npfloat" where
  "signed_inf positive = (if positive then PInf else NInf)"

fun np_mul :: "npfloat \<Rightarrow> npfloat \<Rightarrow> npfloat" where
  "np_mul NaN _ = NaN"
| "np_mul _ NaN = NaN"
| "np_mul (Fin a) (Fin b) = Fin (a * b)"
| "np_mul (Fin a) PInf = (if a = 0 then NaN else signed_inf (0 < a))"
| "np_mul (Fin a) NInf = (if a = 0 then NaN else signed_inf (a < 0))"
| "np_mul PInf (Fin b) = (if b = 0 then NaN else signed_inf (0 < b))"
| "np_mul NInf (Fin b) = (if b = 0 then NaN else signed_inf (b < 0))"
| "np_mul PInf PInf = PInf"
| "np_mul NInf NInf = PInf"
| "np_mul PInf NInf = NInf"
| "np_mul NInf PInf = NInf"

text \<open>
  True division of numpy scalars and arrays: a zero divisor gives \<open>NaN\<close> for \<open>0 / 0\<close>
  and a signed infinity otherwise; nothing is raised.
\<close>

fun np_div :: "npfloat \<Rightarrow> npfloat \<Rightarrow> npfloat" where
  "np_div NaN _ = NaN"
| "np_div _ NaN = NaN"
| "np_div (Fin a) (Fin b) =
     (if b = 0 then (if a = 0 then NaN else signed_inf (0 < a)) else Fin (a / b))"
| "np_div (Fin a) PInf = Fin 0"
| "np_div (Fin a) NInf = Fin 0"
| "np_div PInf (Fin b) = signed_inf (0 \<le> b)"
| "np_div NInf (Fin b) = signed_inf (b < 0)"
| "np_div PInf PInf = NaN"
| "np_div PInf NInf = NaN"
| "np_div NInf PInf = NaN"
| "np_div NInf NInf = NaN"

text \<open>Comparison with a finite bound: every comparison with \<open>NaN\<close> is false.\<close>

fun np_gt :: "npfloat \<Rightarrow> real \<Rightarrow> bool" where
  "np_gt (Fin a) b = (b < a)"
| "np_gt PInf b = True"
| "np_gt NInf b = False"
| "np_gt NaN b = False"

fun np_lt :: "npfloat \<Rightarrow> real \<Rightarrow> bool" where
  "np_lt (Fin a) b = (a < b)"
| "np_lt PInf b = False"
| "np_lt NInf b = True"
| "np_lt NaN b = False"

section \<open>Trend analyser (trend\_analyzer.py)\<close>

text \<open>
  A series is a column of the frame of interest scores: a list of finite numbers (the
  scores are integers from 0 to 100), in time order.
\<close>

subsection \<open>numpy reductions over a one-dimensional array\<close>

definition mean_r :: "real list \<Rightarrow> real" where
  "mean_r vs = sum_list vs / real (length vs)"

text \<open>\<open>np.mean\<close>, \<open>np.median\<close> and \<open>np.std\<close> of an empty array are \<open>nan\<close> (with a
  warning); \<open>np.min\<close> and \<open>np.max\<close> of an empty array raise \<open>ValueError\<close>.\<close>

definition np_mean :: "real list \<Rightarrow> npfloat" where
  "np_mean vs = (if vs = [] then NaN else Fin (mean_r vs))"

definition np_median :: "real list \<Rightarrow> npfloat" where
  "np_median vs =
     (if vs = [] then NaN
      else let s = sort vs; n = length vs
           in if even n then Fin ((s ! (n div 2 - 1) + s ! (n div 2)) / 2)
              else Fin (s ! (n div 2)))"

definition variance :: "real list \<Rightarrow> real" where
  "variance vs = mean_r (map (\<lambda>v. (v - mean_r vs)\<^sup>2) vs)"

definition np_std :: "real list \<Rightarrow> npfloat" where
  "np_std vs = (if vs = [] then NaN else Fin (sqrt (variance vs)))"

definition np_min :: "real list \<Rightarrow> py_error + npfloat" where
  "np_min vs = (case vs of [] \<Rightarrow> Inl ValueError | v # rest \<Rightarrow> Inr (Fin (fold min rest v)))"

definition np_max :: "real list \<Rightarrow> py_error + npfloat" where
  "np_max vs = (case vs of [] \<Rightarrow> Inl ValueError | v # rest \<Rightarrow> Inr (Fin (fold max rest v)))"

definition arange :: "nat \<Rightarrow> nat \<Rightarrow> real list" where
  "arange lo hi = map real [lo..<hi]"

subsection \<open>scipy.stats.linregress\<close>

text \<open>
  The least-squares fit of \<open>y\<close> against \<open>x\<close> as scipy computes it, for the three results
  the analyser reads. \<open>cov\<close> is an entry of \<open>np.cov(x, y, bias=1)\<close>: the mean product of
  the deviations. The fit raises \<open>ValueError\<close> on empty input and when more than one
  \<open>x\<close> is given and all are equal; the correlation is set to 0 when either variance is
  0 and is clipped to \<open>[-1, 1]\<close>; the slope is the unguarded quotient.
\<close>

record regression =
  slope :: npfloat
  intercept :: npfloat
  rvalue :: real

definition cov :: "real list \<Rightarrow> real list \<Rightarrow> real" where
  "cov x y =
     sum_list (map2 (\<lambda>a b. (a - mean_r x) * (b - mean_r y)) x y) / real (length x)"

definition correlation :: "real \<Rightarrow> real \<Rightarrow> real \<Rightarrow> real" where
  "correlation ssxm ssxym ssym =
     (if ssxm = 0 \<or> ssym = 0 then 0
      else let r = ssxym / sqrt (ssxm * ssym)
           in if 1 < r then 1 else if r < - 1 then - 1 else r)"

definition linregress :: "real list \<Rightarrow> real list \<Rightarrow> py_error + regression" where
  "linregress x y =
     (if x = [] \<or> y = [] then Inl ValueError
      else if fold max (tl x) (hd x) = fold min (tl x) (hd x) \<and> 1 < length x
      then Inl ValueError
      else let xmean = mean_r x; ymean = mean_r y;
               ssxm = cov x x; ssxym = cov x y; ssym = cov y y;
               r = correlation ssxm ssxym ssym;
               sl = np_div (Fin ssxym) (Fin ssxm);
               ic = np_sub (Fin ymean) (np_mul sl (Fin xmean))
           in Inr \<lparr>slope = sl, intercept = ic, rvalue = r\<rparr>)"

subsection \<open>The analyser's helpers and the per-keyword body of run\<close>

definition calculate_trend_direction :: "real list \<Rightarrow> py_error + string" where
  "calculate_trend_direction vs =
     (case linregress (arange 0 (length vs)) vs of
        Inl e \<Rightarrow> Inl e
      | Inr reg \<Rightarrow>
          if \<bar>rvalue reg\<bar> < 0.3 then Inr ''stable''
          else Inr (if np_gt (slope reg) 0 then ''increasing'' else ''decreasing''))"

definition calculate_momentum :: "real list \<Rightarrow> npfloat" where
  "calculate_momentum vs =
     (if length vs < 2 then Fin 0
      else np_mul (np_div (np_sub (Fin (last vs)) (Fin (hd vs))) (Fin (hd vs))) (Fin 100))"

definition predict_trend :: "real list \<Rightarrow> py_error + npfloat list" where
  "predict_trend vs =
     (case linregress (arange 0 (length vs)) vs of
        Inl e \<Rightarrow> Inl e
      | Inr reg \<Rightarrow>
          Inr (map (\<lambda>fx. np_add (np_mul (slope reg) (Fin fx)) (intercept reg))
                 (arange (length vs) (length vs + 30))))"

record trend_stats =
  st_mean :: npfloat
  st_median :: npfloat
  st_std :: npfloat
  st_min :: npfloat
  st_max :: npfloat
  trend_direction :: string
  volatility :: npfloat
  momentum :: npfloat

text \<open>Lines 62 to 75 of \<open>run\<close>: the statistics entry and the prediction of one column.
  The entries are evaluated in the order of the dictionary literal, so the first
  exception is the one that leaves the function.\<close>

definition analyze_values :: "real list \<Rightarrow> py_error + trend_stats \<times> npfloat list" where
  "analyze_values vs =
     (case np_min vs of Inl e \<Rightarrow> Inl e | Inr mn \<Rightarrow>
      case np_max vs of Inl e \<Rightarrow> Inl e | Inr mx \<Rightarrow>
      case calculate_trend_direction vs of Inl e \<Rightarrow> Inl e | Inr d \<Rightarrow>
      case predict_trend vs of Inl e \<Rightarrow> Inl e | Inr p \<Rightarrow>
        Inr (\<lparr>st_mean = np_mean vs, st_median = np_median vs, st_std = np_std vs,
              st_min = mn, st_max = mx, trend_direction = d,
              volatility = np_div (np_std vs) (np_mean vs),
              momentum = calculate_momentum vs\<rparr>, p))"

text \<open>
  The frame \<open>interest_df\<close>: its number of rows and its columns by keyword. A pandas frame
  is empty when either axis has length 0, and every column has one value per row.
\<close>

record data_frame =
  index_len :: nat
  columns :: "(string \<times> real list) list"

definition df_empty :: "data_frame \<Rightarrow> bool" where
  "df_empty df = (index_len df = 0 \<or> columns df = [])"

definition wf_frame :: "data_frame \<Rightarrow> bool" where
  "wf_frame df = list_all (\<lambda>c. length (snd c) = index_len df) (columns df)"

text \<open>Lines 55 to 75 for one keyword of the batch: \<open>None\<close> when no entry is written to
  \<open>trend_analysis\<close> and \<open>predictions\<close>.\<close>

definition run_keyword :: "data_frame \<Rightarrow> string \<Rightarrow> py_error + (trend_stats \<times> npfloat list) option" where
  "run_keyword df keyword =
     (if df_empty df then Inr None
      else case map_of (columns df) keyword of
             None \<Rightarrow> Inr None
           | Some vs \<Rightarrow> (case analyze_values vs of Inl e \<Rightarrow> Inl e | Inr r \<Rightarrow> Inr (Some r)))"

section \<open>Channel analyser (channel\_analyzer.py)\<close>

text \<open>
  \<open>Series.round(2)\<close> is numpy's rounding: the value times 100 is rounded to the nearest
  integer, a tie going to the even one, and divided by 100. \<open>NaN\<close> and the infinities
  are left as they are.
\<close>

definition rint :: "real \<Rightarrow> int" where
  "rint x =
     (let f = \<lfloor>x\<rfloor>; d = x - of_int f
      in if d < 1 / 2 then f else if 1 / 2 < d then f + 1 else if even f then f else f + 1)"

definition round2 :: "real \<Rightarrow> real" where
  "round2 x = of_int (rint (x * 100)) / 100"

fun np_round2 :: "npfloat \<Rightarrow> npfloat" where
  "np_round2 (Fin x) = Fin (round2 x)"
| "np_round2 PInf = PInf"
| "np_round2 NInf = NInf"
| "np_round2 NaN = NaN"

text \<open>
  \<open>Series.mean()\<close> of a float column skips the missing values (\<open>NaN\<close>) and divides the
  sum of the others by their number; without any value left the mean is \<open>NaN\<close>. An
  infinity is a value like any other.
\<close>

fun is_nan :: "npfloat \<Rightarrow> bool" where
  "is_nan NaN = True"
| "is_nan _ = False"

definition series_mean :: "npfloat list \<Rightarrow> npfloat" where
  "series_mean xs =
     (let present = filter (\<lambda>x. \<not> is_nan x) xs
      in if present = [] then NaN
         else np_div (fold np_add present (Fin 0)) (Fin (real (length present))))"

text \<open>\<open>Series.idxmax()\<close> of an integer column: the position of the first occurrence of
  the maximum; it raises \<open>ValueError\<close> on an empty column.\<close>

fun idxmax_loop :: "int list \<Rightarrow> nat \<Rightarrow> nat \<Rightarrow> int \<Rightarrow> nat" where
  "idxmax_loop [] i best bv = best"
| "idxmax_loop (v # vs) i best bv =
     (if bv < v then idxmax_loop vs (Suc i) i v else idxmax_loop vs (Suc i) best bv)"

definition idxmax :: "int list \<Rightarrow> py_error + nat" where
  "idxmax vs = (case vs of [] \<Rightarrow> Inl ValueError | v # rest \<Rightarrow> Inr (idxmax_loop rest 1 0 v))"

text \<open>One entry of \<open>video_stats\<close>, and the row of the frame with the two computed
  columns.\<close>

record video =
  title :: string
  published_at :: string
  video_id :: string
  views :: int
  likes :: int
  comments :: int
  duration :: string

record video_row = video +
  engagement_rate :: npfloat
  avg_views_per_day :: npfloat

record performance_metrics =
  avg_views_per_video :: npfloat
  avg_engagement_rate :: npfloat
  best_performing_video :: "video_row option"
  recent_videos :: "video_row list"

text \<open>
  The age of a video in days, \<open>(datetime.now() - pd.to_datetime(published_at))\<close> in
  seconds over 86400, reads the clock and parses a timestamp: it is a parameter
  \<open>days_since\<close> of the model, which may raise. The first row that raises ends the
  computation.
\<close>

fun map_result :: "('a \<Rightarrow> py_error + 'b) \<Rightarrow> 'a list \<Rightarrow> py_error + 'b list" where
  "map_result f [] = Inr []"
| "map_result f (x # xs) =
     (case f x of Inl e \<Rightarrow> Inl e
      | Inr y \<Rightarrow> (case map_result f xs of Inl e \<Rightarrow> Inl e | Inr ys \<Rightarrow> Inr (y # ys)))"

definition engagement_rate_of :: "video \<Rightarrow> npfloat" where
  "engagement_rate_of v =
     np_round2 (np_mul (np_div (Fin (of_int (likes v + comments v))) (Fin (of_int (views v))))
                  (Fin 100))"

definition add_columns :: "(string \<Rightarrow> py_error + real) \<Rightarrow> video \<Rightarrow> py_error + video_row" where
  "add_columns days_since v =
     (case days_since (published_at v) of
        Inl e \<Rightarrow> Inl e
      | Inr days \<Rightarrow>
          Inr (video.extend v
                 \<lparr>engagement_rate = engagement_rate_of v,
                  avg_views_per_day = np_round2 (np_div (Fin (of_int (views v))) (Fin days))\<rparr>))"

text \<open>Lines 89 to 110 of \<open>run\<close>: the frame of the video statistics, its two computed
  columns and the \<open>performance_metrics\<close> entry of the result.\<close>

definition compute_metrics ::
    "(string \<Rightarrow> py_error + real) \<Rightarrow> video list \<Rightarrow> py_error + performance_metrics" where
  "compute_metrics days_since video_stats =
     (if video_stats = []
      then Inr \<lparr>avg_views_per_video = Fin 0, avg_engagement_rate = Fin 0,
                best_performing_video = None, recent_videos = []\<rparr>
      else case map_result (add_columns days_since) video_stats of
             Inl e \<Rightarrow> Inl e
           | Inr df \<Rightarrow>
               (case idxmax (map views df) of
                  Inl e \<Rightarrow> Inl e
                | Inr best \<Rightarrow>
                    Inr \<lparr>avg_views_per_video = Fin (mean_r (map (\<lambda>r. of_int (views r)) df)),
                         avg_engagement_rate = series_mean (map engagement_rate df),
                         best_performing_video = Some (df ! best),
                         recent_videos = df\<rparr>))"


section \<open>Content optimiser (content\_optimizer.py)\<close>

subsection \<open>Strings, tokens and counters\<close>

text \<open>
  Python strings are modelled as lists of characters and the text as ASCII: a word
  character of the pattern \<open>\w\<close> is a letter, a digit or the underscore, and \<open>lower\<close>
  changes the letters \<open>A\<close> to \<open>Z\<close> only.
\<close>

definition is_word_char :: "char \<Rightarrow> bool" where
  "is_word_char c =
     (c \<in> set ''abcdefghijklmnopqrstuvwxyzABCDEFGHIJKLMNOPQRSTUVWXYZ0123456789_'')"

definition lower_char :: "char \<Rightarrow> char" where
  "lower_char c =
     (case map_of (zip ''ABCDEFGHIJKLMNOPQRSTUVWXYZ'' ''abcdefghijklmnopqrstuvwxyz'') c of
        None \<Rightarrow> c
      | Some l \<Rightarrow> l)"

definition lower :: "string \<Rightarrow> string" where
  "lower s = map lower_char s"

text \<open>The maximal runs of characters that satisfy \<open>P\<close>, from left to right; \<open>cur\<close> is
  the run being read. \<open>re.findall(r'\w+', s)\<close> is the list of the maximal runs of word
  characters.\<close>

fun maximal_runs :: "(char \<Rightarrow> bool) \<Rightarrow> string \<Rightarrow> string \<Rightarrow> string list" where
  "maximal_runs P cur [] = (if cur = [] then [] else [cur])"
| "maximal_runs P cur (c # cs) =
     (if P c then maximal_runs P (cur @ [c]) cs
      else if cur = [] then maximal_runs P [] cs
      else cur # maximal_runs P [] cs)"

definition findall_words :: "string \<Rightarrow> string list" where
  "findall_words s = maximal_runs is_word_char [] s"

text \<open>\<open>" ".join(parts)\<close>.\<close>

fun join_space :: "string list \<Rightarrow> string" where
  "join_space [] = []"
| "join_space [p] = p"
| "join_space (p # ps) = p @ '' '' @ join_space ps"

text \<open>
  A \<open>Counter\<close> keeps its keys in the order of their first occurrence, and
  \<open>most_common(n)\<close> is the first \<open>n\<close> entries of the stable sort by decreasing count.
\<close>

fun count_add :: "'a \<Rightarrow> ('a \<times> nat) list \<Rightarrow> ('a \<times> nat) list" where
  "count_add w [] = [(w, 1)]"
| "count_add w ((k, c) # rest) =
     (if k = w then (k, c + 1) # rest else (k, c) # count_add w rest)"

definition counter :: "'a list \<Rightarrow> ('a \<times> nat) list" where
  "counter ws = fold count_add ws []"

definition most_common :: "nat \<Rightarrow> ('a \<times> nat) list \<Rightarrow> ('a \<times> nat) list" where
  "most_common n cs = take n (sort_key (\<lambda>kc. - int (snd kc)) cs)"

subsection \<open>Readability\<close>

text \<open>A \<open>TextBlob\<close>, for what the optimiser reads of it: its sentences and its words.
  The tokenisers of TextBlob are outside the repository; the function from a text to
  its blob is a parameter \<open>text_blob\<close> of the model.\<close>

record blob =
  sentences :: "string list"
  words :: "string list"

definition vowels :: string where
  "vowels = ''aeiouy''"

fun syllable_loop :: "string \<Rightarrow> int \<Rightarrow> bool \<Rightarrow> int" where
  "syllable_loop [] count prev_char_is_vowel = count"
| "syllable_loop (c # cs) count prev_char_is_vowel =
     (let is_vowel = (c \<in> set vowels)
      in syllable_loop cs (if is_vowel \<and> \<not> prev_char_is_vowel then count + 1 else count)
           is_vowel)"

definition endswith_e :: "string \<Rightarrow> bool" where
  "endswith_e w = (case rev w of [] \<Rightarrow> False | c # _ \<Rightarrow> c = CHR ''e'')"

definition count_syllables :: "string \<Rightarrow> int" where
  "count_syllables word =
     (let w = lower word;
          count = syllable_loop w 0 False;
          count = (if endswith_e w then count - 1 else count)
      in if count = 0 then 1 else count)"

definition calculate_readability :: "blob \<Rightarrow> real" where
  "calculate_readability b =
     (let n_sentences = length (sentences b);
          n_words = length (words b);
          syllables = sum_list (map count_syllables (words b))
      in if n_sentences = 0 \<or> n_words = 0 then 0
         else let score = 206.835 - 1.015 * (real n_words / real n_sentences)
                            - 84.6 * (real_of_int syllables / real n_words)
              in min (max score 0) 100)"

text \<open>The readability as the specification writes it: the Flesch Reading Ease formula,
  and the syllables of a word as its contiguous vowel runs, one less for a final
  \<open>e\<close>, and at least 1.\<close>

definition flesch :: "real \<Rightarrow> real \<Rightarrow> real \<Rightarrow> real" where
  "flesch n_words n_sentences n_syllables =
     206.835 - 1.015 * (n_words / n_sentences) - 84.6 * (n_syllables / n_words)"

definition vowel_runs :: "string \<Rightarrow> nat" where
  "vowel_runs w = length (maximal_runs (\<lambda>c. c \<in> set vowels) [] w)"

definition spec_syllables :: "string \<Rightarrow> int" where
  "spec_syllables w = max 1 (int (vowel_runs w) - (if endswith_e w then 1 else 0))"

subsection \<open>The SEO analysis\<close>

text \<open>The content dictionary: each of its four keys may be absent.\<close>

record content =
  ct_title :: "string option"
  ct_description :: "string option"
  ct_tags :: "string list option"
  ct_script :: "string option"

record seo_analysis =
  keyword_density :: "(string \<times> real) list"
  readability_score :: real
  seo_score :: int
  improvement_areas :: "string list"

definition get_or_empty :: "string option \<Rightarrow> string" where
  "get_or_empty field = (case field of None \<Rightarrow> [] | Some s \<Rightarrow> s)"

definition all_text :: "content \<Rightarrow> string" where
  "all_text c =
     join_space [get_or_empty (ct_title c), get_or_empty (ct_description c),
                 get_or_empty (ct_script c)]"

definition calculate_keyword_density :: "string \<Rightarrow> (string \<times> real) list" where
  "calculate_keyword_density text =
     (let ws = findall_words (lower text); total_words = length ws
      in map (\<lambda>wc. (fst wc, real (snd wc) / real total_words * 100))
           (most_common 10 (counter ws)))"

text \<open>The four analyses of \<open>_optimize_seo\<close>, each on the pair of the score and the
  improvements gathered so far.\<close>

definition title_analysis :: "string option \<Rightarrow> int \<times> string list \<Rightarrow> int \<times> string list" where
  "title_analysis field st =
     (case field of
        None \<Rightarrow> st
      | Some t \<Rightarrow>
          if length t < 30 then (fst st, snd st @ [''Title is too short (< 30 characters)''])
          else if 60 < length t then (fst st, snd st @ [''Title is too long (> 60 characters)''])
          else (fst st + 25, snd st))"

definition description_analysis :: "string option \<Rightarrow> int \<times> string list \<Rightarrow> int \<times> string list" where
  "description_analysis field st =
     (case field of
        None \<Rightarrow> st
      | Some d \<Rightarrow>
          if length d < 100
          then (fst st, snd st @ [''Description is too short (< 100 characters)''])
          else if 5000 < length d
          then (fst st, snd st @ [''Description is too long (> 5000 characters)''])
          else (fst st + 25, snd st))"

definition tags_analysis :: "string list option \<Rightarrow> int \<times> string list \<Rightarrow> int \<times> string list" where
  "tags_analysis field st =
     (case field of
        None \<Rightarrow> st
      | Some tags \<Rightarrow>
          if length tags < 5 then (fst st, snd st @ [''Add more tags (minimum 5 recommended)''])
          else (fst st + 25, snd st))"

definition max_density :: "(string \<times> real) list \<Rightarrow> real" where
  "max_density kd = fold max (map snd (tl kd)) (snd (hd kd))"

definition keyword_usage_analysis ::
    "(string \<times> real) list \<Rightarrow> int \<times> string list \<Rightarrow> int \<times> string list" where
  "keyword_usage_analysis kd st =
     (if kd = [] then st
      else if 5 < max_density kd
      then (fst st, snd st @ [''Keyword stuffing detected (density > 5%)''])
      else if max_density kd < 0.5
      then (fst st, snd st @ [''Main keyword usage is too low (< 0.5%)''])
      else (fst st + 25, snd st))"

definition optimize_seo :: "(string \<Rightarrow> blob) \<Rightarrow> content \<Rightarrow> seo_analysis" where
  "optimize_seo text_blob c =
     (let kd = calculate_keyword_density (all_text c);
          readability = calculate_readability (text_blob (all_text c));
          st = keyword_usage_analysis kd
                 (tags_analysis (ct_tags c)
                    (description_analysis (ct_description c)
                       (title_analysis (ct_title c) (0, []))))
      in \<lparr>keyword_density = kd, readability_score = readability,
           seo_score = fst st, improvement_areas = snd st\<rparr>)"

subsection \<open>run\<close>











section \<open>Sentiment analyser (sentiment\_analyzer.py)\<close>

text \<open>One entry of \<open>comments_data\<close>. The key \<open>is_reply\<close> is present for replies only.\<close>

record comment =
  cm_text :: string
  cm_likes :: int
  cm_published_at :: string
  cm_is_reply :: bool

text \<open>
  The language tools the analyser calls are outside the repository and are parameters of
  the model: the TextBlob polarity and subjectivity of a text, the transformer
  classifier (a label and a score), the NLTK sentence and word tokenisers and tagger,
  the date of a timestamp (\<open>pd.to_datetime(...).dt.date\<close>, which may raise), and the
  regular expression engine for the patterns that the model does not interpret itself.
\<close>

record nlp =
  polarity :: "string \<Rightarrow> real"
  subjectivity :: "string \<Rightarrow> real"
  classifier :: "string \<Rightarrow> string \<times> real"
  sent_tokenize :: "string \<Rightarrow> string list"
  word_tokenize :: "string \<Rightarrow> string list"
  pos_tag :: "string list \<Rightarrow> (string \<times> string) list"
  to_date :: "string \<Rightarrow> py_error + string"
  re_engine :: "string \<Rightarrow> string \<Rightarrow> py_error + bool"

subsection \<open>Series.str.contains\<close>

text \<open>
  \<open>df['text'].str.contains(topic, case=False)\<close> keeps the default \<open>regex=True\<close>: the
  topic is compiled as a regular expression with \<open>re.IGNORECASE\<close> and searched in each
  text. In a pattern of ordinary characters and dots, an ordinary character matches
  itself in either case and a dot matches any character but a newline; such a pattern
  is interpreted here. A pattern with any other special character of \<open>re\<close> is left to
  the engine, which may raise on it.
\<close>

definition re_other_special :: string where
  "re_other_special = ''^$*+?{}[]|()'' @ [CHR 0x5C]"

fun match_here :: "string \<Rightarrow> string \<Rightarrow> bool" where
  "match_here [] s = True"
| "match_here (p # ps) [] = False"
| "match_here (p # ps) (c # cs) =
     ((if p = CHR ''.'' then c \<noteq> CHR 0x0A else lower_char p = lower_char c)
      \<and> match_here ps cs)"

fun search_from :: "string \<Rightarrow> string \<Rightarrow> bool" where
  "search_from pat [] = match_here pat []"
| "search_from pat (c # cs) = (match_here pat (c # cs) \<or> search_from pat cs)"

definition str_contains ::
    "(string \<Rightarrow> string \<Rightarrow> py_error + bool) \<Rightarrow> string \<Rightarrow> string \<Rightarrow> py_error + bool" where
  "str_contains engine pat s =
     (if list_ex (\<lambda>c. c \<in> set re_other_special) pat then engine pat s
      else Inr (search_from pat s))"

text \<open>The containment the specification writes: the topic occurs in the text as a
  substring, letter case ignored.\<close>

definition contains_ci :: "string \<Rightarrow> string \<Rightarrow> bool" where
  "contains_ci topic text =
     list_ex (\<lambda>i. take (length topic) (drop i (lower text)) = lower topic)
       [0..<Suc (length text)]"

subsection \<open>Topics\<close>

definition noun_or_adjective :: "string \<Rightarrow> bool" where
  "noun_or_adjective tag = (take 2 tag = ''NN'' \<or> take 2 tag = ''JJ'')"

fun group_topics :: "(string \<times> string) list \<Rightarrow> string list \<Rightarrow> string list" where
  "group_topics [] current_topic =
     (if current_topic = [] then [] else [join_space current_topic])"
| "group_topics ((word, tag) # rest) current_topic =
     (if noun_or_adjective tag then group_topics rest (current_topic @ [word])
      else if current_topic = [] then group_topics rest []
      else join_space current_topic # group_topics rest [])"

definition extract_topics :: "nlp \<Rightarrow> string list \<Rightarrow> string list" where
  "extract_topics tools texts =
     (let all_sentences = concat (map (sent_tokenize tools) texts)
      in concat (map (\<lambda>sentence. group_topics (pos_tag tools (word_tokenize tools sentence)) [])
                   all_sentences))"

text \<open>The loop of lines 156 to 161 over the keys of \<open>top_topics\<close>: a topic that no
  text contains gets no entry.\<close>

fun add_topic_sentiment :: "nlp \<Rightarrow> string list \<Rightarrow> string list \<Rightarrow> py_error + (string \<times> real) list" where
  "add_topic_sentiment tools texts [] = Inr []"
| "add_topic_sentiment tools texts (topic # rest) =
     (case map_result (str_contains (re_engine tools) topic) texts of
        Inl e \<Rightarrow> Inl e
      | Inr flags \<Rightarrow>
          (let topic_comments = map fst (filter snd (zip texts flags))
           in case add_topic_sentiment tools texts rest of
                Inl e \<Rightarrow> Inl e
              | Inr entries \<Rightarrow>
                  Inr (if topic_comments = [] then entries
                       else (topic, sum_list (map (polarity tools) topic_comments)
                                      / real (length topic_comments)) # entries)))"

text \<open>The attribution the specification writes: the mean polarity of the texts that
  contain the topic, and no value when there is none.\<close>

definition spec_topic_sentiment :: "(string \<Rightarrow> real) \<Rightarrow> string list \<Rightarrow> string \<Rightarrow> real option" where
  "spec_topic_sentiment pol texts topic =
     (let matching = filter (contains_ci topic) texts
      in if matching = [] then None else Some (mean_r (map pol matching)))"

subsection \<open>The analysis of the comments\<close>

record overall_sentiment =
  average_polarity :: real
  average_subjectivity :: real
  positive_percentage :: real
  sentiment_distribution :: "string \<Rightarrow> nat option"

record engagement_metrics =
  total_comments :: nat
  total_likes :: int
  avg_likes_per_comment :: real

record key_themes =
  top_topics :: "(string \<times> nat) list"
  topic_sentiment :: "(string \<times> real) list"

record sentiment_results =
  overall :: overall_sentiment
  engagement :: engagement_metrics
  themes :: key_themes
  sentiment_trend :: "string \<Rightarrow> real option"

text \<open>\<open>value_counts().to_dict()\<close>: the number of occurrences of each value that
  occurs.\<close>

definition value_counts :: "string list \<Rightarrow> string \<Rightarrow> nat option" where
  "value_counts labels l = (if l \<in> set labels then Some (count_list labels l) else None)"

text \<open>\<open>groupby('date')['likes'].mean().to_dict()\<close>: the mean of the likes of the rows
  of each date that occurs.\<close>

definition groupby_mean :: "(string \<times> int) list \<Rightarrow> string \<Rightarrow> real option" where
  "groupby_mean rows d =
     (let group = map (\<lambda>r. real_of_int (snd r)) (filter (\<lambda>r. fst r = d) rows)
      in if group = [] then None else Some (mean_r group))"

text \<open>
  Lines 84 to 163 of \<open>run\<close>, from the frame of the comments on. The frame of an empty
  list has no column, so the first read of \<open>df['text']\<close> raises \<open>KeyError\<close>.
\<close>

definition analyze_comments :: "nlp \<Rightarrow> comment list \<Rightarrow> py_error + sentiment_results" where
  "analyze_comments tools comments_data =
     (if comments_data = [] then Inl (KeyError ''text'')
      else let texts = map cm_text comments_data;
               labels = map (\<lambda>t. fst (classifier tools (take 512 t))) texts;
               topics = extract_topics tools texts;
               top = most_common 10 (counter topics)
           in case map_result (to_date tools) (map cm_published_at comments_data) of
                Inl e \<Rightarrow> Inl e
              | Inr dates \<Rightarrow>
                  (case add_topic_sentiment tools texts (map fst top) of
                     Inl e \<Rightarrow> Inl e
                   | Inr by_topic \<Rightarrow>
                       Inr \<lparr>overall =
                              \<lparr>average_polarity = mean_r (map (polarity tools) texts),
                               average_subjectivity = mean_r (map (subjectivity tools) texts),
                               positive_percentage =
                                 mean_r (map (\<lambda>l. if l = ''POSITIVE'' then 1 else 0) labels) * 100,
                               sentiment_distribution = value_counts labels\<rparr>,
                            engagement =
                              \<lparr>total_comments = length comments_data,
                               total_likes = sum_list (map cm_likes comments_data),
                               avg_likes_per_comment =
                                 mean_r (map (\<lambda>c. real_of_int (cm_likes c)) comments_data)\<rparr>,
                            themes = \<lparr>top_topics = top, topic_sentiment = by_topic\<rparr>,
                            sentiment_trend =
                              groupby_mean (zip dates (map cm_likes comments_data))\<rparr>))"

section \<open>Properties of the trend analyser\<close>

lemma fold_max_Max: "fold max xs (x::real) = Max (set (x # xs))"
  by (rule Max.set_eq_fold [symmetric])

lemma fold_min_Min: "fold min xs (x::real) = Min (set (x # xs))"
  by (rule Min.set_eq_fold [symmetric])

lemma arange_Cons: "lo < hi \<Longrightarrow> arange lo hi = real lo # arange (Suc lo) hi"
  by (simp add: arange_def upt_conv_Cons)

lemma arange_spread:
  assumes "2 \<le> n"
  shows "fold max (tl (arange 0 n)) (hd (arange 0 n)) \<noteq> fold min (tl (arange 0 n)) (hd (arange 0 n))"
proof -
  have e: "arange 0 n = 0 # 1 # arange 2 n"
    using assms by (simp add: arange_def upt_conv_Cons numeral_2_eq_2)
  have "Min (set (arange 0 n)) \<le> 0" by (rule Min_le) (simp_all add: e)
  moreover have "1 \<le> Max (set (arange 0 n))" by (rule Max_ge) (simp_all add: e)
  ultimately show ?thesis
    unfolding fold_max_Max fold_min_Min by (simp add: e)
qed

lemma linregress_arange_ok:
  assumes "vs \<noteq> []"
  shows "\<exists>reg. linregress (arange 0 (length vs)) vs = Inr reg"
proof (cases "2 \<le> length vs")
  case True
  then show ?thesis using assms arange_spread[OF True]
    by (simp add: linregress_def Let_def arange_def)
next
  case False
  then have "\<not> 1 < length (arange 0 (length vs))" by (simp add: arange_def)
  then show ?thesis using assms
    by (simp add: linregress_def Let_def arange_def)
qed

lemma analyze_values_ok:
  assumes "vs \<noteq> []"
  shows "\<exists>mn mx d p. calculate_trend_direction vs = Inr d \<and> predict_trend vs = Inr p \<and>
     analyze_values vs = Inr (\<lparr>st_mean = np_mean vs, st_median = np_median vs, st_std = np_std vs,
              st_min = mn, st_max = mx, trend_direction = d,
              volatility = np_div (np_std vs) (np_mean vs),
              momentum = calculate_momentum vs\<rparr>, p)"
proof -
  obtain reg where r: "linregress (arange 0 (length vs)) vs = Inr reg"
    using linregress_arange_ok[OF assms] by blast
  obtain v rest where v: "vs = v # rest" using assms by (cases vs) auto
  have mn: "np_min vs = Inr (Fin (fold min rest v))" by (simp add: np_min_def v)
  have mx: "np_max vs = Inr (Fin (fold max rest v))" by (simp add: np_max_def v)
  show ?thesis
    by (simp add: analyze_values_def calculate_trend_direction_def predict_trend_def r mn mx)
qed


lemma sqrt_variance_nonneg: "0 \<le> sqrt (variance vs)"
  by (auto simp: variance_def mean_r_def intro!: divide_nonneg_nonneg sum_list_nonneg)

lemma volatility_zero_mean:
  assumes "vs \<noteq> []" "mean_r vs = 0"
  shows "np_div (np_std vs) (np_mean vs) = NaN \<or> np_div (np_std vs) (np_mean vs) = PInf"
  using assms sqrt_variance_nonneg[of vs]
  by (simp add: np_std_def np_mean_def signed_inf_def)

lemma momentum_zero_first:
  assumes "2 \<le> length vs" "hd vs = 0"
  shows "calculate_momentum vs = NaN \<or> calculate_momentum vs = PInf \<or> calculate_momentum vs = NInf"
  using assms by (simp add: calculate_momentum_def np_sub_def signed_inf_def)

text \<open>
  Claim C1, as the code has it. For a frame whose columns have one value per row, the
  per-keyword body of \<open>run\<close> never raises. An empty frame is skipped by the guard, so
  no entry is written for the keyword (not an entry of zeros). For a series that is
  analysed: fewer than 2 samples give momentum 0; a mean of 0 gives a volatility of
  \<open>NaN\<close> or \<open>+inf\<close>, the value of numpy's division by zero, not 0; a first sample of 0
  with at least 2 samples gives a momentum of \<open>NaN\<close> or an infinity, not 0.
\<close>

theorem trend_degenerate_inputs:
  assumes "wf_frame df"
  shows "(\<exists>r. run_keyword df keyword = Inr r)
    \<and> (df_empty df \<longrightarrow> run_keyword df keyword = Inr None)
    \<and> (\<forall>vs st fc. run_keyword df keyword = Inr (Some (st, fc)) \<and>
          map_of (columns df) keyword = Some vs \<longrightarrow>
          (length vs < 2 \<longrightarrow> momentum st = Fin 0)
        \<and> (mean_r vs = 0 \<longrightarrow> volatility st = NaN \<or> volatility st = PInf)
        \<and> (2 \<le> length vs \<and> hd vs = 0 \<longrightarrow>
             momentum st = NaN \<or> momentum st = PInf \<or> momentum st = NInf))"
proof (cases "df_empty df")
  case True
  then show ?thesis by (simp add: run_keyword_def)
next
  case False
  show ?thesis
  proof (cases "map_of (columns df) keyword")
    case None
    then show ?thesis using False by (simp add: run_keyword_def)
  next
    case (Some vs)
    then have "(keyword, vs) \<in> set (columns df)" by (rule map_of_SomeD)
    then have "length vs = index_len df"
      using assms by (auto simp: wf_frame_def list_all_iff)
    then have ne: "vs \<noteq> []" using False by (auto simp: df_empty_def)
    obtain mn mx d p where a: "analyze_values vs =
        Inr (\<lparr>st_mean = np_mean vs, st_median = np_median vs, st_std = np_std vs,
              st_min = mn, st_max = mx, trend_direction = d,
              volatility = np_div (np_std vs) (np_mean vs),
              momentum = calculate_momentum vs\<rparr>, p)"
      using analyze_values_ok[OF ne] by blast
    have run: "run_keyword df keyword = Inr (Some (\<lparr>st_mean = np_mean vs, st_median = np_median vs, st_std = np_std vs,
              st_min = mn, st_max = mx, trend_direction = d,
              volatility = np_div (np_std vs) (np_mean vs),
              momentum = calculate_momentum vs\<rparr>, p))"
      using False Some by (simp add: run_keyword_def a)
    have m1: "length vs < 2 \<Longrightarrow> calculate_momentum vs = Fin 0"
      by (simp add: calculate_momentum_def)
    show ?thesis
      using False Some volatility_zero_mean[OF ne] momentum_zero_first[of vs] m1
      by (auto simp: run)
  qed
qed

lemma arange_0_2: "arange 0 (Suc (Suc 0)) = [0, 1]"
  by (simp add: arange_def upt_conv_Cons)



lemma map2_map_same: "map2 g x (map f x) = map (\<lambda>t. g t (f t)) x"
  by (induction x) auto

lemma map2_same: "map2 g x x = map (\<lambda>t. g t t) x"
  by (induction x) auto

lemma map2_map_map_same: "map2 g (map f x) (map f x) = map (\<lambda>t. g (f t) (f t)) x"
  by (induction x) auto

lemma mean_r_affine:
  assumes "x \<noteq> []"
  shows "mean_r (map (\<lambda>t. a + b * t) x) = a + b * mean_r x"
proof -
  have "sum_list (map (\<lambda>t. a + b * t) x) = real (length x) * a + b * sum_list x"
    by (simp add: sum_list_addf sum_list_triv sum_list_const_mult)
  moreover have "real (length x) \<noteq> 0" using assms by simp
  ultimately show ?thesis
    by (simp add: mean_r_def field_simps)
qed

lemma cov_affine_right:
  assumes "x \<noteq> []"
  shows "cov x (map (\<lambda>t. a + b * t) x) = b * cov x x"
proof -
  have "sum_list (map (\<lambda>t. (t - mean_r x) * (a + b * t - (a + b * mean_r x))) x)
      = sum_list (map (\<lambda>t. b * ((t - mean_r x) * (t - mean_r x))) x)"
    by (rule arg_cong[where f = sum_list], rule map_cong) (simp_all add: algebra_simps)
  then show ?thesis
    by (simp add: cov_def map2_map_same map2_same mean_r_affine[OF assms] sum_list_const_mult)
qed

lemma cov_affine_both:
  assumes "x \<noteq> []"
  shows "cov (map (\<lambda>t. a + b * t) x) (map (\<lambda>t. a + b * t) x) = b\<^sup>2 * cov x x"
proof -
  let ?y = "map (\<lambda>t. a + b * t) x"
  have m: "mean_r ?y = a + b * mean_r x" by (rule mean_r_affine[OF assms])
  have "map2 (\<lambda>u v. (u - mean_r ?y) * (v - mean_r ?y)) ?y ?y
      = map (\<lambda>t. b\<^sup>2 * ((t - mean_r x) * (t - mean_r x))) x"
    unfolding map2_map_map_same m
    by (rule map_cong) (simp_all add: algebra_simps power2_eq_square)
  then have "cov ?y ?y = sum_list (map (\<lambda>t. b\<^sup>2 * ((t - mean_r x) * (t - mean_r x))) x) / real (length x)"
    by (simp only: cov_def length_map)
  also have "\<dots> = b\<^sup>2 * cov x x"
    by (simp add: cov_def map2_same sum_list_const_mult)
  finally show ?thesis .
qed

lemma cov_self_nonneg: "0 \<le> cov x x"
  by (auto simp: cov_def map2_same intro!: divide_nonneg_nonneg sum_list_nonneg)

lemma cov_arange_pos:
  assumes "2 \<le> n"
  shows "0 < cov (arange 0 n) (arange 0 n)"
proof -
  let ?x = "arange 0 n"
  let ?m = "mean_r ?x"
  let ?sq = "map (\<lambda>t. (t - ?m) * (t - ?m)) ?x"
  have e: "?x = 0 # 1 # arange 2 n"
    using assms by (simp add: arange_def upt_conv_Cons numeral_2_eq_2)
  have nonneg: "\<And>q. q \<in> set ?sq \<Longrightarrow> 0 \<le> q" by auto
  have "sum_list ?sq \<noteq> 0"
  proof
    assume "sum_list ?sq = 0"
    then have all0: "\<forall>q\<in>set ?sq. q = 0"
      using sum_list_nonneg_eq_0_iff[of ?sq] nonneg by blast
    have m0: "0 \<in> set ?x" and m1: "1 \<in> set ?x" by (subst e, simp)+
    have "(0 - ?m) * (0 - ?m) \<in> (\<lambda>t. (t - ?m) * (t - ?m)) ` set ?x"
      using m0 by (rule imageI)
    moreover have "(1 - ?m) * (1 - ?m) \<in> (\<lambda>t. (t - ?m) * (t - ?m)) ` set ?x"
      using m1 by (rule imageI)
    ultimately have "(0 - ?m) * (0 - ?m) = 0" "(1 - ?m) * (1 - ?m) = 0"
      using all0 unfolding set_map by blast+
    then show False by simp
  qed
  moreover have "0 \<le> sum_list ?sq" using nonneg by (rule sum_list_nonneg)
  ultimately have "0 < sum_list ?sq" by simp
  moreover have "0 < real (length ?x)" using assms by (simp add: arange_def)
  ultimately show ?thesis
    by (simp add: cov_def map2_same)
qed

lemma linregress_arange_fit:
  assumes "2 \<le> length vs"
  shows "linregress (arange 0 (length vs)) vs =
      Inr \<lparr>slope = Fin (cov (arange 0 (length vs)) vs / cov (arange 0 (length vs)) (arange 0 (length vs))),
           intercept = Fin (mean_r vs - cov (arange 0 (length vs)) vs / cov (arange 0 (length vs)) (arange 0 (length vs)) * mean_r (arange 0 (length vs))),
           rvalue = correlation (cov (arange 0 (length vs)) (arange 0 (length vs))) (cov (arange 0 (length vs)) vs) (cov vs vs)\<rparr>"
proof -
  have ne: "vs \<noteq> []" "arange 0 (length vs) \<noteq> []" using assms by (auto simp: arange_def)
  have pos: "cov (arange 0 (length vs)) (arange 0 (length vs)) \<noteq> 0"
    using cov_arange_pos[OF assms] by simp
  show ?thesis
    using ne arange_spread[OF assms] pos
    by (simp add: linregress_def Let_def np_sub_def)
qed

lemma linear_series:
  assumes "\<forall>k<length vs. vs ! k = a + b * real k"
  shows "vs = map (\<lambda>t. a + b * t) (arange 0 (length vs))"
  using assms by (intro nth_equalityI) (simp_all add: arange_def)

lemma correlation_perfect:
  assumes "0 < s" "0 < b"
  shows "correlation s (b * s) (b\<^sup>2 * s) = 1"
proof -
  have "s * (b\<^sup>2 * s) = (b * s)\<^sup>2" by (simp add: power2_eq_square)
  then have "sqrt (s * (b\<^sup>2 * s)) = b * s" using assms by simp
  then show ?thesis using assms by (simp add: correlation_def Let_def)
qed

lemma constant_replicate:
  assumes "\<forall>x\<in>set vs. x = v"
  shows "vs = replicate (length vs) v"
  using assms by (simp add: replicate_length_same)

lemma mean_r_replicate: "0 < n \<Longrightarrow> mean_r (replicate n v) = v"
  by (simp add: mean_r_def sum_list_replicate)

lemma constant_mean:
  assumes "vs \<noteq> []" "\<forall>x\<in>set vs. x = v"
  shows "mean_r vs = v"
  using assms(1) by (subst constant_replicate[OF assms(2)]) (simp add: mean_r_replicate)






lemma upt_shift_map: "map f (arange lo hi) = map (\<lambda>k. f (real k)) [lo..<hi]"
  by (simp add: arange_def)

text \<open>
  Claim C8. For a series of at least 2 samples the fit has a finite slope \<open>s\<close> and
  intercept \<open>i\<close>, the forecast is the list of the 30 values \<open>s * k + i\<close> for the indices
  \<open>k\<close> from the length of the series on, with no clamping, and the direction is
  classified from the same fit. When the series is the line \<open>a + b * k\<close> with \<open>b > 0\<close>
  the fit is \<open>s = b\<close>, \<open>i = a\<close> with correlation 1, so the direction is \<open>increasing\<close>
  and the forecast continues the line.
\<close>

theorem predict_trend_extrapolates:
  assumes "2 \<le> length vs"
  shows "\<exists>s i r fc.
      linregress (arange 0 (length vs)) vs = Inr \<lparr>slope = Fin s, intercept = Fin i, rvalue = r\<rparr>
    \<and> predict_trend vs = Inr fc \<and> length fc = 30
    \<and> fc = map (\<lambda>k. Fin (s * real k + i)) [length vs..<length vs + 30]
    \<and> calculate_trend_direction vs =
        Inr (if \<bar>r\<bar> < 0.3 then ''stable'' else if 0 < s then ''increasing'' else ''decreasing'')
    \<and> ((\<forall>k<length vs. vs ! k = a + b * real k) \<and> 0 < b \<longrightarrow> s = b \<and> i = a \<and> r = 1)"
proof -
  let ?x = "arange 0 (length vs)"
  let ?s = "cov ?x vs / cov ?x ?x"
  let ?i = "mean_r vs - ?s * mean_r ?x"
  let ?r = "correlation (cov ?x ?x) (cov ?x vs) (cov vs vs)"
  have fit: "linregress ?x vs = Inr \<lparr>slope = Fin ?s, intercept = Fin ?i, rvalue = ?r\<rparr>"
    by (rule linregress_arange_fit[OF assms])
  have pos: "0 < cov ?x ?x" by (rule cov_arange_pos[OF assms])
  have xne: "?x \<noteq> []" using assms by (auto simp: arange_def)
  have p: "predict_trend vs = Inr (map (\<lambda>k. Fin (?s * real k + ?i)) [length vs..<length vs + 30])"
    by (simp add: predict_trend_def fit upt_shift_map)
  have d: "calculate_trend_direction vs =
        Inr (if \<bar>?r\<bar> < 0.3 then ''stable'' else if 0 < ?s then ''increasing'' else ''decreasing'')"
    by (simp add: calculate_trend_direction_def fit)
  have lin: "?s = b \<and> ?i = a \<and> ?r = 1" if l: "\<forall>k<length vs. vs ! k = a + b * real k" and b: "0 < b"
  proof -
    have v: "vs = map (\<lambda>t. a + b * t) ?x" by (rule linear_series[OF l])
    have c1: "cov ?x vs = b * cov ?x ?x"
      by (subst v) (rule cov_affine_right[OF xne])
    have c2: "cov vs vs = b\<^sup>2 * cov ?x ?x"
      by (subst (1 2) v) (rule cov_affine_both[OF xne])
    have m: "mean_r vs = a + b * mean_r ?x"
      by (subst v) (rule mean_r_affine[OF xne])
    have "?s = b" using pos by (simp add: c1)
    moreover have "?i = a" using pos by (simp add: c1 m)
    moreover have "?r = 1" unfolding c1 c2 by (rule correlation_perfect[OF pos b])
    ultimately show ?thesis by simp
  qed
  have len: "length (map (\<lambda>k. Fin (?s * real k + ?i)) [length vs..<length vs + 30]) = 30"
    by simp
  from fit p len d lin show ?thesis by blast
qed


lemma forecast_const: "map (\<lambda>fx. c) (arange lo hi) = replicate (hi - lo) c"
  by (simp add: arange_def map_replicate_const)

text \<open>
  The series \<open>[0, 0]\<close> has mean 0 and first sample 0: its volatility and momentum are
  \<open>NaN\<close>. The series \<open>[0, 7]\<close> has first sample 0 and momentum \<open>+inf\<close>. A frame with
  no rows yields no entry.
\<close>

theorem trend_degenerate_counterexample:
  "run_keyword \<lparr>index_len = 2, columns = [(''ai'', [0, 0])]\<rparr> ''ai'' =
     Inr (Some (\<lparr>st_mean = Fin 0, st_median = Fin 0, st_std = Fin 0, st_min = Fin 0,
                 st_max = Fin 0, trend_direction = ''stable'', volatility = NaN,
                 momentum = NaN\<rparr>, replicate 30 (Fin 0)))
   \<and> run_keyword \<lparr>index_len = 2, columns = [(''ai'', [0, 7])]\<rparr> ''ai'' =
     Inr (Some (\<lparr>st_mean = Fin (7 / 2), st_median = Fin (7 / 2), st_std = Fin (7 / 2),
                 st_min = Fin 0, st_max = Fin 7, trend_direction = ''increasing'',
                 volatility = Fin 1, momentum = PInf\<rparr>,
                 map (\<lambda>k. Fin (7 * real k)) [2..<32]))
   \<and> run_keyword \<lparr>index_len = 0, columns = [(''ai'', [])]\<rparr> ''ai'' = Inr None"
proof -
  have lr: "linregress [0, 1] [0, 0] = Inr \<lparr>slope = Fin 0, intercept = Fin 0, rvalue = 0\<rparr>"
    by (simp add: linregress_def Let_def cov_def mean_r_def correlation_def np_sub_def)
  have a: "analyze_values [0, 0] = Inr (\<lparr>st_mean = Fin 0, st_median = Fin 0, st_std = Fin 0, st_min = Fin 0,
                 st_max = Fin 0, trend_direction = ''stable'', volatility = NaN,
                 momentum = NaN\<rparr>, replicate 30 (Fin 0))"
    by (simp add: forecast_const analyze_values_def np_min_def np_max_def calculate_trend_direction_def
        predict_trend_def arange_0_2 lr np_mean_def np_median_def np_std_def variance_def
        mean_r_def calculate_momentum_def np_sub_def)
  have sq: "sqrt (49 / 4) = 7 / 2"
    by (rule real_sqrt_unique) (simp_all add: power2_eq_square)
  have sq2: "sqrt (49 / 16) = 7 / 4"
    by (rule real_sqrt_unique) (simp_all add: power2_eq_square)
  have up: "[Suc (Suc 0)..<32] = [2..<32]"
    by (simp only: numeral_2_eq_2)
  have lr7: "linregress [0, 1] [0, 7] = Inr \<lparr>slope = Fin 7, intercept = Fin 0, rvalue = 1\<rparr>"
    by (simp add: linregress_def Let_def cov_def mean_r_def correlation_def np_sub_def sq2)
  have a7: "analyze_values [0, 7] = Inr (\<lparr>st_mean = Fin (7 / 2), st_median = Fin (7 / 2), st_std = Fin (7 / 2),
                 st_min = Fin 0, st_max = Fin 7, trend_direction = ''increasing'',
                 volatility = Fin 1, momentum = PInf\<rparr>,
                 map (\<lambda>k. Fin (7 * real k)) [2..<32])"
    by (simp add: analyze_values_def np_min_def np_max_def calculate_trend_direction_def
        predict_trend_def arange_0_2 lr7 np_mean_def np_median_def np_std_def variance_def
        mean_r_def calculate_momentum_def np_sub_def signed_inf_def sq upt_shift_map
        power2_eq_square up del: upt_rec_numeral)
  show ?thesis
    by (simp add: run_keyword_def df_empty_def a a7)
qed


theorem trend_degenerate_inputs_witness:
  "wf_frame \<lparr>index_len = 2, columns = [(''ai'', [0, 0])]\<rparr>
   \<and> mean_r [0, 0] = 0 \<and> hd [0, 0 :: real] = 0
   \<and> (\<exists>st fc. run_keyword \<lparr>index_len = 2, columns = [(''ai'', [0, 0])]\<rparr> ''ai'' = Inr (Some (st, fc))
         \<and> volatility st = NaN \<and> momentum st = NaN)
   \<and> wf_frame \<lparr>index_len = 1, columns = [(''ai'', [4])]\<rparr>
   \<and> (\<exists>st fc. run_keyword \<lparr>index_len = 1, columns = [(''ai'', [4])]\<rparr> ''ai'' = Inr (Some (st, fc))
         \<and> momentum st = Fin 0)
   \<and> wf_frame \<lparr>index_len = 0, columns = [(''ai'', [])]\<rparr>
   \<and> df_empty \<lparr>index_len = 0, columns = [(''ai'', [])]\<rparr>
   \<and> run_keyword \<lparr>index_len = 0, columns = [(''ai'', [])]\<rparr> ''ai'' = Inr None"
proof -
  let ?z = "\<lparr>index_len = 2, columns = [(''ai'', [0, 0 :: real])]\<rparr>"
  let ?o = "\<lparr>index_len = 1, columns = [(''ai'', [4 :: real])]\<rparr>"
  let ?e = "\<lparr>index_len = 0, columns = [(''ai'', [] :: real list)]\<rparr>"
  have wz: "wf_frame ?z" and wo: "wf_frame ?o" and we: "wf_frame ?e"
    by (simp_all add: wf_frame_def)
  have ez: "\<not> df_empty ?z" and eo: "\<not> df_empty ?o" and ee: "df_empty ?e"
    by (simp_all add: df_empty_def)
  have m: "mean_r [0, 0] = 0" by (simp add: mean_r_def)
  obtain rz where rz: "run_keyword ?z ''ai'' = Inr rz"
    using trend_degenerate_inputs[OF wz, of "''ai''"] by blast
  obtain stz fcz where sz: "rz = Some (stz, fcz)"
    using rz ez by (cases rz) (auto simp: run_keyword_def split: sum.splits)
  have vz: "volatility stz = NaN \<or> volatility stz = PInf"
    and mz: "momentum stz = NaN \<or> momentum stz = PInf \<or> momentum stz = NInf"
    using trend_degenerate_inputs[OF wz, of "''ai''"] rz sz m by auto
  have "\<exists>st fc. run_keyword ?z ''ai'' = Inr (Some (st, fc)) \<and> volatility st = NaN \<and> momentum st = NaN"
    using vz mz rz sz
    by (auto simp: run_keyword_def df_empty_def analyze_values_def np_min_def np_max_def
        np_std_def np_mean_def variance_def mean_r_def calculate_momentum_def np_sub_def
        split: sum.splits)
  moreover
  obtain ro where ro: "run_keyword ?o ''ai'' = Inr ro"
    using trend_degenerate_inputs[OF wo, of "''ai''"] by blast
  obtain sto fco where so: "ro = Some (sto, fco)"
    using ro eo by (cases ro) (auto simp: run_keyword_def split: sum.splits)
  have "momentum sto = Fin 0"
    using trend_degenerate_inputs[OF wo, of "''ai''"] ro so by auto
  then have "\<exists>st fc. run_keyword ?o ''ai'' = Inr (Some (st, fc)) \<and> momentum st = Fin 0"
    using ro so by auto
  moreover have "run_keyword ?e ''ai'' = Inr None"
    using trend_degenerate_inputs[OF we, of "''ai''"] ee by blast
  ultimately show ?thesis using wz wo we ee m by simp
qed



theorem predict_trend_extrapolates_witness:
  "2 \<le> length [10, 20, 30, 40, 50 :: real]
   \<and> predict_trend [10, 20, 30, 40, 50] = Inr (map (\<lambda>k. Fin (10 * real k + 10)) [5..<35])
   \<and> calculate_trend_direction [10, 20, 30, 40, 50] = Inr ''increasing''"
proof -
  let ?vs = "[10, 20, 30, 40, 50 :: real]"
  have h: "2 \<le> length ?vs" by simp
  have l: "\<forall>k<length ?vs. ?vs ! k = 10 + 10 * real k"
    by (auto simp: less_Suc_eq)
  have "length ?vs = 5" by simp
  then have n: "[length ?vs..<length ?vs + 30] = [5..<35]" by (simp del: upt_rec_numeral list.size)
  obtain s i r :: real and fc where
    p: "predict_trend ?vs = Inr fc" "fc = map (\<lambda>k. Fin (s * real k + i)) [length ?vs..<length ?vs + 30]"
    and d: "calculate_trend_direction ?vs =
        Inr (if \<bar>r\<bar> < 0.3 then ''stable'' else if 0 < s then ''increasing'' else ''decreasing'')"
    and e: "(\<forall>k<length ?vs. ?vs ! k = 10 + 10 * real k) \<and> (0::real) < 10 \<longrightarrow> s = 10 \<and> i = 10 \<and> r = 1"
    using predict_trend_extrapolates[OF h, of 10 10] by blast
  have "s = 10" "i = 10" "r = 1" using e l by simp_all
  then show ?thesis using h p d unfolding n by simp
qed

section \<open>Properties of the channel analyser\<close>

lemma map_result_Inr:
  "map_result f xs = Inr ys \<Longrightarrow> length ys = length xs \<and> (\<forall>i<length xs. f (xs ! i) = Inr (ys ! i))"
proof (induction xs arbitrary: ys)
  case Nil
  then show ?case by simp
next
  case (Cons x xs)
  then obtain y ys' where y: "f x = Inr y" "map_result f xs = Inr ys'" "ys = y # ys'"
    by (auto split: sum.splits)
  with Cons.IH[OF y(2)] show ?case
    by (auto simp: nth_Cons')
qed

lemma map_result_total:
  "(\<And>x. x \<in> set xs \<Longrightarrow> \<exists>y. f x = Inr y) \<Longrightarrow> \<exists>ys. map_result f xs = Inr ys"
  by (induction xs) (fastforce split: sum.splits)+

lemma add_columns_Inr:
  assumes "add_columns days_since v = Inr r"
  shows "video.truncate r = v \<and> views r = views v \<and> engagement_rate r = engagement_rate_of v"
  using assms
  by (auto simp: add_columns_def video.extend_def video.truncate_def split: sum.splits)

lemma idxmax_loop_first_max:
  assumes "length pre = i" "best < i" "pre ! best = bv"
    "\<forall>j<i. pre ! j \<le> bv" "\<forall>j<best. pre ! j < bv"
  shows "let k = idxmax_loop vs i best bv; xs = pre @ vs in
     k < length xs \<and> (\<forall>j<length xs. xs ! j \<le> xs ! k) \<and> (\<forall>j<k. xs ! j < xs ! k)"
  using assms
proof (induction vs arbitrary: pre i best bv)
  case Nil
  then show ?case by (simp add: Let_def)
next
  case (Cons v vs)
  show ?case
  proof (cases "bv < v")
    case True
    have "let k = idxmax_loop vs (Suc i) i v; xs = (pre @ [v]) @ vs in
        k < length xs \<and> (\<forall>j<length xs. xs ! j \<le> xs ! k) \<and> (\<forall>j<k. xs ! j < xs ! k)"
    proof (rule Cons.IH)
      show "length (pre @ [v]) = Suc i" using Cons.prems by simp
      show "i < Suc i" by simp
      show "(pre @ [v]) ! i = v" using Cons.prems by (simp add: nth_append)
      show "\<forall>j<Suc i. (pre @ [v]) ! j \<le> v"
        using Cons.prems True by (auto simp: nth_append less_Suc_eq intro: order.trans less_imp_le)
      show "\<forall>j<i. (pre @ [v]) ! j < v"
        using Cons.prems True by (auto simp: nth_append intro: le_less_trans)
    qed
    then show ?thesis using True by simp
  next
    case False
    have "let k = idxmax_loop vs (Suc i) best bv; xs = (pre @ [v]) @ vs in
        k < length xs \<and> (\<forall>j<length xs. xs ! j \<le> xs ! k) \<and> (\<forall>j<k. xs ! j < xs ! k)"
    proof (rule Cons.IH)
      show "length (pre @ [v]) = Suc i" using Cons.prems by simp
      show "best < Suc i" using Cons.prems by simp
      show "(pre @ [v]) ! best = bv" using Cons.prems by (simp add: nth_append)
      show "\<forall>j<Suc i. (pre @ [v]) ! j \<le> bv"
        using Cons.prems False by (auto simp: nth_append less_Suc_eq)
      show "\<forall>j<best. (pre @ [v]) ! j < bv"
        using Cons.prems by (auto simp: nth_append)
    qed
    then show ?thesis using False by simp
  qed
qed

lemma idxmax_first_max:
  assumes "idxmax xs = Inr k"
  shows "k < length xs \<and> (\<forall>j<length xs. xs ! j \<le> xs ! k) \<and> (\<forall>j<k. xs ! j < xs ! k)"
proof -
  obtain v rest where xs: "xs = v # rest" and k: "k = idxmax_loop rest 1 0 v"
    using assms by (auto simp: idxmax_def split: list.splits)
  have "let k = idxmax_loop rest 1 0 v; ys = [v] @ rest in
     k < length ys \<and> (\<forall>j<length ys. ys ! j \<le> ys ! k) \<and> (\<forall>j<k. ys ! j < ys ! k)"
    by (rule idxmax_loop_first_max) simp_all
  then show ?thesis by (simp add: xs k Let_def)
qed

lemma idxmax_total: "xs \<noteq> [] \<Longrightarrow> \<exists>k. idxmax xs = Inr k"
  by (cases xs) (simp_all add: idxmax_def)

lemma compute_metrics_Inr:
  assumes "compute_metrics days_since video_stats = Inr m" "video_stats \<noteq> []"
  shows "\<exists>df best. map_result (add_columns days_since) video_stats = Inr df
     \<and> idxmax (map views df) = Inr best
     \<and> m = \<lparr>avg_views_per_video = Fin (mean_r (map (\<lambda>r. of_int (views r)) df)),
             avg_engagement_rate = series_mean (map engagement_rate df),
             best_performing_video = Some (df ! best),
             recent_videos = df\<rparr>"
  using assms by (auto simp: compute_metrics_def split: sum.splits)

lemma frame_rows:
  assumes "map_result (add_columns days_since) video_stats = Inr df"
  shows "length df = length video_stats"
    and "i < length video_stats \<Longrightarrow> video.truncate (df ! i) = video_stats ! i"
    and "i < length video_stats \<Longrightarrow> views (df ! i) = views (video_stats ! i)"
    and "i < length video_stats \<Longrightarrow> engagement_rate (df ! i) = engagement_rate_of (video_stats ! i)"
  using map_result_Inr[OF assms] add_columns_Inr[of days_since "video_stats ! i" "df ! i"]
  by auto

lemma frame_columns:
  assumes "map_result (add_columns days_since) video_stats = Inr df"
  shows "map views df = map views video_stats"
    and "map engagement_rate df = map engagement_rate_of video_stats"
  using frame_rows[OF assms] by (auto intro!: nth_equalityI)

text \<open>
  Claim C10. When the metrics are computed for a non-empty collection, the best
  performing video is the row of an index \<open>i\<close> of the input whose view count is maximal
  and strictly above the view count of every earlier record: among the records that tie
  for the maximum it is the first in input order.
\<close>

theorem best_performing_first_maximum:
  assumes "compute_metrics days_since video_stats = Inr m" and "video_stats \<noteq> []"
  shows "\<exists>i<length video_stats.
      best_performing_video m = Some (recent_videos m ! i)
    \<and> video.truncate (recent_videos m ! i) = video_stats ! i
    \<and> (\<forall>j<length video_stats. views (video_stats ! j) \<le> views (video_stats ! i))
    \<and> (\<forall>j<i. views (video_stats ! j) < views (video_stats ! i))"
proof -
  obtain df best where df: "map_result (add_columns days_since) video_stats = Inr df"
    and best: "idxmax (map views df) = Inr best"
    and m: "m = \<lparr>avg_views_per_video = Fin (mean_r (map (\<lambda>r. of_int (views r)) df)),
             avg_engagement_rate = series_mean (map engagement_rate df),
             best_performing_video = Some (df ! best),
             recent_videos = df\<rparr>"
    using compute_metrics_Inr[OF assms] by blast
  have b0: "best < length (map views video_stats) \<and>
      (\<forall>j<length (map views video_stats). map views video_stats ! j \<le> map views video_stats ! best) \<and>
      (\<forall>j<best. map views video_stats ! j < map views video_stats ! best)"
    using idxmax_first_max[OF best] unfolding frame_columns(1)[OF df] .
  then have b: "best < length video_stats" by simp
  then have e: "map views video_stats ! best = views (video_stats ! best)" by simp
  have "\<forall>j<length video_stats. views (video_stats ! j) \<le> views (video_stats ! best)"
    using b0 by (simp add: e)
  moreover have "\<forall>j<best. views (video_stats ! j) < views (video_stats ! best)"
    using b0 b by (simp add: e)
  ultimately show ?thesis
    using b frame_rows(2)[OF df b] by (auto simp: m)
qed

lemma compute_metrics_total:
  assumes "\<And>v. v \<in> set video_stats \<Longrightarrow> \<exists>d. days_since (published_at v) = Inr d"
  shows "\<exists>m. compute_metrics days_since video_stats = Inr m"
proof (cases "video_stats = []")
  case True
  then show ?thesis by (simp add: compute_metrics_def)
next
  case False
  have "\<And>v. v \<in> set video_stats \<Longrightarrow> \<exists>r. add_columns days_since v = Inr r"
    using assms by (fastforce simp: add_columns_def)
  then obtain df where df: "map_result (add_columns days_since) video_stats = Inr df"
    using map_result_total[of video_stats "add_columns days_since"] by blast
  have "df \<noteq> []" using frame_rows(1)[OF df] False by auto
  then obtain best where "idxmax (map views df) = Inr best"
    using idxmax_total[of "map views df"] by auto
  then show ?thesis using False df by (simp add: compute_metrics_def)
qed

text \<open>The rounding is to 2 decimals: it moves a value by at most half a hundredth.\<close>

lemma rint_close: "\<bar>of_int (rint x) - x\<bar> \<le> 1 / 2"
  unfolding rint_def Let_def by (auto simp: abs_le_iff)

lemma round2_close: "\<bar>round2 x - x\<bar> \<le> 1 / 200"
proof -
  have "\<bar>of_int (rint (x * 100)) - x * 100\<bar> \<le> 1 / 2" by (rule rint_close)
  then show ?thesis unfolding round2_def by (simp add: abs_le_iff field_simps)
qed









lemma rint_of_int: "rint (of_int k) = k"
  by (simp add: rint_def)

lemma round2_hundredths: "round2 (of_int k / 100) = of_int k / 100"
  by (simp add: round2_def rint_of_int)

lemma round2_10: "round2 10 = 10" and round2_20: "round2 20 = 20" and round2_0: "round2 0 = 0"
  and round2_50: "round2 50 = 50"
  using round2_hundredths[of 1000] round2_hundredths[of 2000] round2_hundredths[of 0]
    round2_hundredths[of 5000]
  by simp_all




theorem best_performing_first_maximum_witness:
  "compute_metrics (\<lambda>t. Inr 10)
     [\<lparr>title = ''intro'', published_at = ''2024-05-01'', video_id = ''a1'',
        views = 200, likes = 15, comments = 5, duration = ''PT5M''\<rparr>,
      \<lparr>title = ''hit'', published_at = ''2024-05-04'', video_id = ''d4'',
        views = 500, likes = 0, comments = 0, duration = ''PT3M''\<rparr>,
      \<lparr>title = ''tie'', published_at = ''2024-05-05'', video_id = ''e5'',
        views = 500, likes = 0, comments = 0, duration = ''PT4M''\<rparr>]
   = Inr \<lparr>avg_views_per_video = Fin 400, avg_engagement_rate = Fin (10 / 3),
          best_performing_video =
            Some \<lparr>title = ''hit'', published_at = ''2024-05-04'', video_id = ''d4'',
                   views = 500, likes = 0, comments = 0, duration = ''PT3M'',
                   engagement_rate = Fin 0, avg_views_per_day = Fin 50\<rparr>,
          recent_videos =
            [\<lparr>title = ''intro'', published_at = ''2024-05-01'', video_id = ''a1'',
               views = 200, likes = 15, comments = 5, duration = ''PT5M'',
               engagement_rate = Fin 10, avg_views_per_day = Fin 20\<rparr>,
             \<lparr>title = ''hit'', published_at = ''2024-05-04'', video_id = ''d4'',
               views = 500, likes = 0, comments = 0, duration = ''PT3M'',
               engagement_rate = Fin 0, avg_views_per_day = Fin 50\<rparr>,
             \<lparr>title = ''tie'', published_at = ''2024-05-05'', video_id = ''e5'',
               views = 500, likes = 0, comments = 0, duration = ''PT4M'',
               engagement_rate = Fin 0, avg_views_per_day = Fin 50\<rparr>]\<rparr>"
proof -
  let ?a = "\<lparr>title = ''intro'', published_at = ''2024-05-01'', video_id = ''a1'',
        views = 200, likes = 15, comments = 5, duration = ''PT5M''\<rparr>"
  let ?d = "\<lparr>title = ''hit'', published_at = ''2024-05-04'', video_id = ''d4'',
        views = 500, likes = 0, comments = 0, duration = ''PT3M''\<rparr>"
  let ?e = "\<lparr>title = ''tie'', published_at = ''2024-05-05'', video_id = ''e5'',
        views = 500, likes = 0, comments = 0, duration = ''PT4M''\<rparr>"
  obtain m where m: "compute_metrics (\<lambda>t. Inr 10) [?a, ?d, ?e] = Inr m"
    using compute_metrics_total[of "[?a, ?d, ?e]" "\<lambda>t. Inr 10"] by blast
  have ne: "[?a, ?d, ?e] \<noteq> []" by simp
  obtain i where i: "i < length [?a, ?d, ?e]"
    "best_performing_video m = Some (recent_videos m ! i)"
    "\<forall>j<length [?a, ?d, ?e]. views ([?a, ?d, ?e] ! j) \<le> views ([?a, ?d, ?e] ! i)"
    "\<forall>j<i. views ([?a, ?d, ?e] ! j) < views ([?a, ?d, ?e] ! i)"
    using best_performing_first_maximum[OF m ne] by blast
  have "i = 1"
  proof -
    from i(1) consider "i = 0" | "i = 1" | "i = 2" by (auto simp: less_Suc_eq)
    then show ?thesis
    proof cases
      case 1 with i(3)[rule_format, of 1] have "views ([?a, ?d, ?e] ! 1) \<le> views ([?a, ?d, ?e] ! 0)" by simp
      then show ?thesis by simp
    next
      case 2 then show ?thesis .
    next
      case 3 with i(4)[rule_format, of 1] have "views ([?a, ?d, ?e] ! 1) < views ([?a, ?d, ?e] ! 2)" by simp
      then show ?thesis by simp
    qed
  qed
  then have "compute_metrics (\<lambda>t. Inr 10) [?a, ?d, ?e] =
      Inr (m\<lparr>best_performing_video := Some (recent_videos m ! 1)\<rparr>)"
    using m i(2) by simp
  then show ?thesis
    by (simp add: compute_metrics_def add_columns_def engagement_rate_of_def video.extend_def
      idxmax_def series_mean_def mean_r_def signed_inf_def round2_10 round2_20 round2_0 round2_50)
qed

section \<open>Properties of the content optimiser\<close>

lemma syllable_loop_runs:
  assumes "prev \<longleftrightarrow> cur \<noteq> []"
  shows "syllable_loop w count prev =
      count + int (length (maximal_runs (\<lambda>c. c \<in> set vowels) cur w)) - (if prev then 1 else 0)"
  using assms
proof (induction w arbitrary: count prev cur)
  case Nil
  then show ?case by simp
next
  case (Cons c cs)
  show ?case
  proof (cases "c \<in> set vowels")
    case True
    have "syllable_loop cs (if \<not> prev then count + 1 else count) True =
        (if \<not> prev then count + 1 else count)
        + int (length (maximal_runs (\<lambda>c. c \<in> set vowels) (cur @ [c]) cs)) - (if True then 1 else 0)"
      by (rule Cons.IH) simp
    then show ?thesis using True by (simp add: Let_def)
  next
    case False
    have "syllable_loop cs count False =
        count + int (length (maximal_runs (\<lambda>c. c \<in> set vowels) [] cs)) - (if False then 1 else 0)"
      by (rule Cons.IH) simp
    then show ?thesis using False Cons.prems by (simp add: Let_def)
  qed
qed

lemma maximal_runs_last:
  assumes "w \<noteq> []" "P (last w)"
  shows "maximal_runs P cur w \<noteq> []"
  using assms
proof (induction w arbitrary: cur)
  case Nil
  then show ?case by simp
next
  case (Cons c cs)
  show ?case
  proof (cases "cs = []")
    case True
    then show ?thesis using Cons.prems by simp
  next
    case False
    then have "P (last cs)" using Cons.prems by simp
    then have "\<And>cur. maximal_runs P cur cs \<noteq> []" using Cons.IH False by blast
    then show ?thesis by simp
  qed
qed

lemma endswith_e_last: "endswith_e w \<Longrightarrow> w \<noteq> [] \<and> last w = CHR ''e''"
  by (cases w rule: rev_cases) (simp_all add: endswith_e_def)

lemma endswith_e_vowel_runs: "endswith_e w \<Longrightarrow> 1 \<le> vowel_runs w"
proof -
  assume e: "endswith_e w"
  then have "w \<noteq> []" "last w \<in> set vowels"
    using endswith_e_last[OF e] by (simp_all add: vowels_def)
  then have "maximal_runs (\<lambda>c. c \<in> set vowels) [] w \<noteq> []"
    by (rule maximal_runs_last)
  then show ?thesis
    unfolding vowel_runs_def by (simp add: Suc_le_eq)
qed

lemma count_syllables_spec: "count_syllables word = spec_syllables (lower word)"
proof -
  have l: "syllable_loop (lower word) 0 False = int (vowel_runs (lower word))"
    using syllable_loop_runs[of False "[]" "lower word" 0] by (simp add: vowel_runs_def)
  show ?thesis
    using endswith_e_vowel_runs[of "lower word"]
    by (auto simp: count_syllables_def spec_syllables_def l Let_def)
qed

text \<open>
  Claim C5. The readability of a blob is 0 when it has no sentence or no word, and
  otherwise the Flesch Reading Ease formula of its word, sentence and syllable counts
  clamped to the interval from 0 to 100. The syllable count of a word is the number of
  contiguous vowel runs of the lower-cased word, one less when it ends in \<open>e\<close>, and at
  least 1.
\<close>

theorem readability_flesch:
  "calculate_readability b =
     (if sentences b = [] \<or> words b = [] then 0
      else min (max (flesch (real (length (words b))) (real (length (sentences b)))
                       (real_of_int (sum_list (map (\<lambda>w. spec_syllables (lower w)) (words b)))))
                  0) 100)
   \<and> 0 \<le> calculate_readability b \<and> calculate_readability b \<le> 100
   \<and> count_syllables word = spec_syllables (lower word)
   \<and> 1 \<le> count_syllables word"
proof -
  have m: "map count_syllables (words b) = map (\<lambda>w. spec_syllables (lower w)) (words b)"
    by (simp add: count_syllables_spec)
  have "1 \<le> count_syllables word"
    by (simp add: count_syllables_spec spec_syllables_def)
  then show ?thesis
    by (simp add: calculate_readability_def Let_def flesch_def m count_syllables_spec)
qed

theorem readability_flesch_witness:
  "calculate_readability \<lparr>sentences = [''reading is easy today''],
       words = [''reading'', ''is'', ''easy'', ''today'']\<rparr> = 54.725
   \<and> calculate_readability \<lparr>sentences = [], words = []\<rparr> = 0
   \<and> count_syllables ''simple'' = 1 \<and> count_syllables ''hmm'' = 1
   \<and> count_syllables ''Reading'' = 2"
proof -
  let ?b = "\<lparr>sentences = [''reading is easy today''],
       words = [''reading'', ''is'', ''easy'', ''today'']\<rparr>"
  have s: "spec_syllables (lower ''reading'') = 2" "spec_syllables (lower ''is'') = 1"
    "spec_syllables (lower ''easy'') = 2" "spec_syllables (lower ''today'') = 2"
    "spec_syllables (lower ''simple'') = 1" "spec_syllables (lower ''hmm'') = 1"
    "spec_syllables (lower ''Reading'') = 2"
    by (simp_all add: spec_syllables_def vowel_runs_def vowels_def endswith_e_def lower_def
        lower_char_def)
  show ?thesis
    using readability_flesch[of ?b "''simple''"] readability_flesch[of "\<lparr>sentences = [], words = []\<rparr>" "''hmm''"]
      readability_flesch[of ?b "''Reading''"]
    by (simp add: s flesch_def)
qed

lemma title_analysis_acc:
  "title_analysis f st = (fst st + fst (title_analysis f (0, [])), snd st @ snd (title_analysis f (0, [])))"
  by (simp add: title_analysis_def split: option.splits)

lemma description_analysis_acc:
  "description_analysis f st =
     (fst st + fst (description_analysis f (0, [])), snd st @ snd (description_analysis f (0, [])))"
  by (simp add: description_analysis_def split: option.splits)

lemma tags_analysis_acc:
  "tags_analysis f st = (fst st + fst (tags_analysis f (0, [])), snd st @ snd (tags_analysis f (0, [])))"
  by (simp add: tags_analysis_def split: option.splits)

lemma keyword_usage_analysis_acc:
  "keyword_usage_analysis kd st =
     (fst st + fst (keyword_usage_analysis kd (0, [])), snd st @ snd (keyword_usage_analysis kd (0, [])))"
  by (simp add: keyword_usage_analysis_def)

text \<open>
  Claim C6, as the code has it. The score is the sum of four parts and the improvements
  are the concatenation of four parts, one pair per check. A check whose field is absent
  contributes 0 and no message; a check whose field is present contributes either 25 and
  no message or 0 and exactly one message. The keyword check awards its 25 points when
  the maximal density is between 0.5 and 5 inclusive, reports keyword stuffing above 5
  and low usage below 0.5.
\<close>

theorem seo_checks:
  "\<exists>t d g k tm dm gm km.
      seo_score (optimize_seo text_blob c) = t + d + g + k
    \<and> improvement_areas (optimize_seo text_blob c) = tm @ dm @ gm @ km
    \<and> (ct_title c = None \<longrightarrow> t = 0 \<and> tm = [])
    \<and> (ct_title c \<noteq> None \<longrightarrow> (t = 25 \<and> tm = [] \<or> t = 0 \<and> length tm = 1))
    \<and> (ct_description c = None \<longrightarrow> d = 0 \<and> dm = [])
    \<and> (ct_description c \<noteq> None \<longrightarrow> (d = 25 \<and> dm = [] \<or> d = 0 \<and> length dm = 1))
    \<and> (ct_tags c = None \<longrightarrow> g = 0 \<and> gm = [])
    \<and> (ct_tags c \<noteq> None \<longrightarrow> (g = 25 \<and> gm = [] \<or> g = 0 \<and> length gm = 1))
    \<and> (keyword_density (optimize_seo text_blob c) = [] \<longrightarrow> k = 0 \<and> km = [])
    \<and> (keyword_density (optimize_seo text_blob c) \<noteq> [] \<longrightarrow>
         (let mx = max_density (keyword_density (optimize_seo text_blob c)) in
            (1 / 2 \<le> mx \<and> mx \<le> 5 \<longrightarrow> k = 25 \<and> km = [])
          \<and> (5 < mx \<longrightarrow> k = 0 \<and> km = [''Keyword stuffing detected (density > 5%)''])
          \<and> (mx < 1 / 2 \<longrightarrow> k = 0 \<and> km = [''Main keyword usage is too low (< 0.5%)''])))"
proof -
  let ?kd = "calculate_keyword_density (all_text c)"
  let ?t = "title_analysis (ct_title c) (0, [])"
  let ?d = "description_analysis (ct_description c) (0, [])"
  let ?g = "tags_analysis (ct_tags c) (0, [])"
  let ?k = "keyword_usage_analysis ?kd (0, [])"
  have kd: "keyword_density (optimize_seo text_blob c) = ?kd"
    by (simp add: optimize_seo_def Let_def)
  have e1: "description_analysis (ct_description c) ?t = (fst ?t + fst ?d, snd ?t @ snd ?d)"
    by (rule description_analysis_acc)
  have e2: "tags_analysis (ct_tags c) (fst ?t + fst ?d, snd ?t @ snd ?d)
      = (fst ?t + fst ?d + fst ?g, snd ?t @ snd ?d @ snd ?g)"
    using tags_analysis_acc[of "ct_tags c" "(fst ?t + fst ?d, snd ?t @ snd ?d)"] by simp
  have e3: "keyword_usage_analysis ?kd (fst ?t + fst ?d + fst ?g, snd ?t @ snd ?d @ snd ?g)
      = (fst ?t + fst ?d + fst ?g + fst ?k, snd ?t @ snd ?d @ snd ?g @ snd ?k)"
    using keyword_usage_analysis_acc[of ?kd "(fst ?t + fst ?d + fst ?g, snd ?t @ snd ?d @ snd ?g)"]
    by simp
  have st: "keyword_usage_analysis ?kd
        (tags_analysis (ct_tags c) (description_analysis (ct_description c) ?t))
      = (fst ?t + fst ?d + fst ?g + fst ?k, snd ?t @ snd ?d @ snd ?g @ snd ?k)"
    unfolding e1 e2 e3 ..
  have score: "seo_score (optimize_seo text_blob c) = fst ?t + fst ?d + fst ?g + fst ?k"
    by (simp add: optimize_seo_def Let_def st)
  have imp: "improvement_areas (optimize_seo text_blob c) = snd ?t @ snd ?d @ snd ?g @ snd ?k"
    by (simp add: optimize_seo_def Let_def st)
  have t: "(ct_title c = None \<longrightarrow> fst ?t = 0 \<and> snd ?t = [])
      \<and> (ct_title c \<noteq> None \<longrightarrow> (fst ?t = 25 \<and> snd ?t = [] \<or> fst ?t = 0 \<and> length (snd ?t) = 1))"
    by (simp add: title_analysis_def split: option.splits)
  have d: "(ct_description c = None \<longrightarrow> fst ?d = 0 \<and> snd ?d = [])
      \<and> (ct_description c \<noteq> None \<longrightarrow> (fst ?d = 25 \<and> snd ?d = [] \<or> fst ?d = 0 \<and> length (snd ?d) = 1))"
    by (simp add: description_analysis_def split: option.splits)
  have g: "(ct_tags c = None \<longrightarrow> fst ?g = 0 \<and> snd ?g = [])
      \<and> (ct_tags c \<noteq> None \<longrightarrow> (fst ?g = 25 \<and> snd ?g = [] \<or> fst ?g = 0 \<and> length (snd ?g) = 1))"
    by (simp add: tags_analysis_def split: option.splits)
  have k: "(?kd = [] \<longrightarrow> fst ?k = 0 \<and> snd ?k = [])
      \<and> (?kd \<noteq> [] \<longrightarrow>
         (let mx = max_density ?kd in
            (1 / 2 \<le> mx \<and> mx \<le> 5 \<longrightarrow> fst ?k = 25 \<and> snd ?k = [])
          \<and> (5 < mx \<longrightarrow> fst ?k = 0 \<and> snd ?k = [''Keyword stuffing detected (density > 5%)''])
          \<and> (mx < 1 / 2 \<longrightarrow> fst ?k = 0 \<and> snd ?k = [''Main keyword usage is too low (< 0.5%)''])))"
    by (simp add: keyword_usage_analysis_def Let_def)
  show ?thesis
    unfolding kd
    apply (rule exI[of _ "fst ?t"], rule exI[of _ "fst ?d"], rule exI[of _ "fst ?g"], rule exI[of _ "fst ?k"])
    apply (rule exI[of _ "snd ?t"], rule exI[of _ "snd ?d"], rule exI[of _ "snd ?g"], rule exI[of _ "snd ?k"])
    using score imp t d g k unfolding kd by blast
qed


text \<open>Twenty distinct words: the maximal density is exactly 5, which is not strictly
  inside the bounds, and the check awards its 25 points.\<close>

theorem keyword_density_boundary_counterexample:
  "optimize_seo (\<lambda>t. \<lparr>sentences = [t], words = findall_words t\<rparr>)
     \<lparr>ct_title = None, ct_description = None, ct_tags = None,
      ct_script = Some ''a b c d e f g h i j k l m n o p q r s t''\<rparr>
   = \<lparr>keyword_density =
        [(''a'', 5), (''b'', 5), (''c'', 5), (''d'', 5), (''e'', 5), (''f'', 5), (''g'', 5),
         (''h'', 5), (''i'', 5), (''j'', 5)],
      readability_score = 100, seo_score = 25, improvement_areas = []\<rparr>
   \<and> max_density [(''a'', 5), (''b'', 5), (''c'', 5), (''d'', 5), (''e'', 5), (''f'', 5),
         (''g'', 5), (''h'', 5), (''i'', 5), (''j'', 5)] = 5"
proof -
  let ?text = "''  a b c d e f g h i j k l m n o p q r s t''"
  have ws: "findall_words ?text = [''a'', ''b'', ''c'', ''d'', ''e'', ''f'', ''g'', ''h'', ''i'', ''j'',
      ''k'', ''l'', ''m'', ''n'', ''o'', ''p'', ''q'', ''r'', ''s'', ''t'']"
    by (simp add: findall_words_def is_word_char_def)
  have kd: "calculate_keyword_density ?text =
      [(''a'', 5), (''b'', 5), (''c'', 5), (''d'', 5), (''e'', 5), (''f'', 5), (''g'', 5),
       (''h'', 5), (''i'', 5), (''j'', 5)]"
    by (simp add: calculate_keyword_density_def findall_words_def is_word_char_def lower_def
        lower_char_def counter_def most_common_def)
  have rd: "calculate_readability \<lparr>sentences = [?text], words = findall_words ?text\<rparr> = 100"
    unfolding ws
    by (simp add: calculate_readability_def count_syllables_def lower_def lower_char_def
        vowels_def endswith_e_def Let_def)
  have mx: "max_density [(''a'', 5), (''b'', 5), (''c'', 5), (''d'', 5), (''e'', 5), (''f'', 5),
         (''g'', 5), (''h'', 5), (''i'', 5), (''j'', 5)] = 5"
    by (simp add: max_density_def)
  have at: "all_text \<lparr>ct_title = None, ct_description = None, ct_tags = None,
      ct_script = Some ''a b c d e f g h i j k l m n o p q r s t''\<rparr> = ?text"
    by (simp add: all_text_def get_or_empty_def)
  show ?thesis
    by (simp add: optimize_seo_def at kd rd mx Let_def title_analysis_def
        description_analysis_def tags_analysis_def keyword_usage_analysis_def)
qed

theorem seo_checks_witness:
  "seo_score (optimize_seo (\<lambda>t. \<lparr>sentences = [t], words = findall_words t\<rparr>)
      \<lparr>ct_title = Some ''AI'', ct_description = None, ct_tags = None, ct_script = None\<rparr>) = 0
   \<and> improvement_areas (optimize_seo (\<lambda>t. \<lparr>sentences = [t], words = findall_words t\<rparr>)
      \<lparr>ct_title = Some ''AI'', ct_description = None, ct_tags = None, ct_script = None\<rparr>)
     = [''Title is too short (< 30 characters)'', ''Keyword stuffing detected (density > 5%)'']
   \<and> seo_score (optimize_seo (\<lambda>t. \<lparr>sentences = [t], words = findall_words t\<rparr>)
      \<lparr>ct_title = Some ''Ten Practical Ways to Plan Video Content Well'', ct_description = None,
       ct_tags = Some [''a'', ''b'', ''c''], ct_script = None\<rparr>) = 25
   \<and> improvement_areas (optimize_seo (\<lambda>t. \<lparr>sentences = [t], words = findall_words t\<rparr>)
      \<lparr>ct_title = Some ''Ten Practical Ways to Plan Video Content Well'', ct_description = None,
       ct_tags = Some [''a'', ''b'', ''c''], ct_script = None\<rparr>)
     = [''Add more tags (minimum 5 recommended)'', ''Keyword stuffing detected (density > 5%)'']"
proof -
  let ?tb = "\<lambda>t. \<lparr>sentences = [t], words = findall_words t\<rparr>"
  let ?c1 = "\<lparr>ct_title = Some ''AI'', ct_description = None, ct_tags = None, ct_script = None\<rparr>"
  let ?c2 = "\<lparr>ct_title = Some ''Ten Practical Ways to Plan Video Content Well'',
       ct_description = None, ct_tags = Some [''a'', ''b'', ''c''], ct_script = None\<rparr>"
  have k1: "keyword_density (optimize_seo ?tb ?c1) = [(''ai'', 100)]"
    by (simp add: optimize_seo_def Let_def all_text_def get_or_empty_def
        calculate_keyword_density_def findall_words_def is_word_char_def lower_def
        lower_char_def counter_def most_common_def)
  have k2: "keyword_density (optimize_seo ?tb ?c2) =
      [(''ten'', 25 / 2), (''practical'', 25 / 2), (''ways'', 25 / 2), (''to'', 25 / 2), (''plan'', 25 / 2),
       (''video'', 25 / 2), (''content'', 25 / 2), (''well'', 25 / 2)]"
    by (simp add: optimize_seo_def Let_def all_text_def get_or_empty_def
        calculate_keyword_density_def findall_words_def is_word_char_def lower_def
        lower_char_def counter_def most_common_def)
  have r1: "\<exists>t d g k :: int. seo_score (optimize_seo ?tb ?c1) = t + d + g + k"
    using seo_checks[of ?tb ?c1] by blast
  have r2: "\<exists>t d g k :: int. seo_score (optimize_seo ?tb ?c2) = t + d + g + k"
    using seo_checks[of ?tb ?c2] by blast
  have s1: "title_analysis (Some ''AI'') (0, []) = (0, [''Title is too short (< 30 characters)''])"
    by (simp add: title_analysis_def)
  have s2: "title_analysis (Some ''Ten Practical Ways to Plan Video Content Well'') (0, []) = (25, [])"
    by (simp add: title_analysis_def)
  have m1: "max_density [(''ai'', 100)] = 100" by (simp add: max_density_def)
  have m2: "max_density [(''ten'', 25 / 2), (''practical'', 25 / 2), (''ways'', 25 / 2), (''to'', 25 / 2),
       (''plan'', 25 / 2), (''video'', 25 / 2), (''content'', 25 / 2), (''well'', 25 / 2)] = 25 / 2"
    by (simp add: max_density_def)
  have "seo_score (optimize_seo ?tb ?c1) = 0
     \<and> improvement_areas (optimize_seo ?tb ?c1)
       = [''Title is too short (< 30 characters)'', ''Keyword stuffing detected (density > 5%)'']"
    using k1 r1
    by (simp add: optimize_seo_def Let_def s1 m1 description_analysis_def tags_analysis_def
        keyword_usage_analysis_def)
  moreover have "seo_score (optimize_seo ?tb ?c2) = 25
     \<and> improvement_areas (optimize_seo ?tb ?c2)
       = [''Add more tags (minimum 5 recommended)'', ''Keyword stuffing detected (density > 5%)'']"
    using k2 r2
    by (simp add: optimize_seo_def Let_def s2 m2 description_analysis_def tags_analysis_def
        keyword_usage_analysis_def)
  ultimately show ?thesis by simp
qed



section \<open>Properties of the sentiment analyser\<close>

lemma match_here_literal:
  assumes "CHR ''.'' \<notin> set pat"
  shows "match_here pat s = (take (length pat) (lower s) = lower pat)"
  using assms
proof (induction pat arbitrary: s)
  case Nil
  then show ?case by (simp add: lower_def)
next
  case (Cons p ps)
  show ?case
  proof (cases s)
    case Nil
    then show ?thesis by (simp add: lower_def)
  next
    case (Cons c cs)
    have "match_here ps cs = (take (length ps) (lower cs) = lower ps)"
      using Cons.IH Cons.prems by simp
    then show ?thesis using Cons Cons.prems by (auto simp: lower_def)
  qed
qed

lemma search_from_drop: "search_from pat s = (\<exists>i\<le>length s. match_here pat (drop i s))"
proof (induction s)
  case Nil
  then show ?case by simp
next
  case (Cons c cs)
  have "(\<exists>i\<le>length (c # cs). match_here pat (drop i (c # cs)))
      = (match_here pat (c # cs) \<or> (\<exists>i\<le>length cs. match_here pat (drop i cs)))"
  proof
    assume "\<exists>i\<le>length (c # cs). match_here pat (drop i (c # cs))"
    then obtain i where i: "i \<le> length (c # cs)" "match_here pat (drop i (c # cs))" by blast
    show "match_here pat (c # cs) \<or> (\<exists>i\<le>length cs. match_here pat (drop i cs))"
    proof (cases i)
      case 0
      then show ?thesis using i by simp
    next
      case (Suc j)
      then have "j \<le> length cs" "match_here pat (drop j cs)" using i by simp_all
      then show ?thesis by blast
    qed
  next
    assume "match_here pat (c # cs) \<or> (\<exists>i\<le>length cs. match_here pat (drop i cs))"
    then show "\<exists>i\<le>length (c # cs). match_here pat (drop i (c # cs))"
    proof
      assume "match_here pat (c # cs)"
      then have "match_here pat (drop 0 (c # cs))" by simp
      then show ?thesis by blast
    next
      assume "\<exists>i\<le>length cs. match_here pat (drop i cs)"
      then obtain i where "i \<le> length cs" "match_here pat (drop i cs)" by blast
      then have "Suc i \<le> length (c # cs)" "match_here pat (drop (Suc i) (c # cs))" by simp_all
      then show ?thesis by blast
    qed
  qed
  then show ?case using Cons.IH by simp
qed

lemma list_ex_upt_Suc: "list_ex P [0..<Suc n] = (\<exists>i\<le>n. P i)"
  unfolding list_ex_iff by (auto simp del: upt_Suc simp: less_Suc_eq_le)

lemma search_from_literal:
  assumes "CHR ''.'' \<notin> set pat"
  shows "search_from pat s = contains_ci pat s"
proof -
  have "contains_ci pat s = (\<exists>i\<le>length s. take (length pat) (drop i (lower s)) = lower pat)"
    unfolding contains_ci_def by (rule list_ex_upt_Suc)
  also have "\<dots> = (\<exists>i\<le>length s. match_here pat (drop i s))"
    by (simp add: match_here_literal[OF assms] lower_def drop_map)
  finally show ?thesis by (simp add: search_from_drop)
qed

lemma str_contains_literal:
  assumes "CHR ''.'' \<notin> set pat" "\<not> list_ex (\<lambda>c. c \<in> set re_other_special) pat"
  shows "str_contains engine pat s = Inr (contains_ci pat s)"
  using assms by (simp add: str_contains_def search_from_literal)

lemma map_result_pure: "map_result (\<lambda>x. Inr (g x)) xs = Inr (map g xs)"
  by (induction xs) simp_all

lemma filter_zip_flags: "map fst (filter snd (zip xs (map g xs))) = filter g xs"
  by (induction xs) simp_all

text \<open>
  For topics made of ordinary characters only, the loop computes the attribution of the
  specification: for each topic in order, the mean polarity of the texts that contain it
  as a substring in either case, and no entry when there is none.
\<close>

lemma add_topic_sentiment_literal:
  assumes "\<forall>t\<in>set topics. CHR ''.'' \<notin> set t \<and> \<not> list_ex (\<lambda>c. c \<in> set re_other_special) t"
  shows "add_topic_sentiment tools texts topics =
     Inr (concat (map (\<lambda>t. case spec_topic_sentiment (polarity tools) texts t of
                              None \<Rightarrow> [] | Some v \<Rightarrow> [(t, v)]) topics))"
  using assms
proof (induction topics)
  case Nil
  then show ?case by simp
next
  case (Cons t ts)
  have lit: "CHR ''.'' \<notin> set t" "\<not> list_ex (\<lambda>c. c \<in> set re_other_special) t"
    using Cons.prems by simp_all
  have f: "str_contains (re_engine tools) t = (\<lambda>s. Inr (contains_ci t s))"
    by (rule ext) (rule str_contains_literal[OF lit])
  have m: "map_result (str_contains (re_engine tools) t) texts = Inr (map (contains_ci t) texts)"
    unfolding f by (rule map_result_pure)
  have ih: "add_topic_sentiment tools texts ts =
     Inr (concat (map (\<lambda>t. case spec_topic_sentiment (polarity tools) texts t of
                              None \<Rightarrow> [] | Some v \<Rightarrow> [(t, v)]) ts))"
    using Cons.IH Cons.prems by simp
  show ?case
    by (simp add: m ih filter_zip_flags spec_topic_sentiment_def mean_r_def Let_def)
qed

text \<open>
  Claim C3 at the empty collection: the analysis of an empty list of comments raises
  \<open>KeyError\<close> on the column \<open>text\<close> and returns no aggregate.
\<close>

theorem empty_comments_raise:
  "analyze_comments tools [] = Inl (KeyError ''text'')"
  by (simp add: analyze_comments_def)

text \<open>
  Claim C7 at a topic with a dot. The topic \<open>u.s\<close> is read as a pattern whose dot matches
  any character, so the text \<open>unsafe but big\<close>, which does not contain the topic, counts
  for it: the attribution of \<open>u.s\<close> is the mean of both polarities, \<open>-1/10\<close>, where the
  mean over the texts that contain the topic is \<open>2/5\<close>.
\<close>

theorem topic_pattern_divergence:
  "(let tools =
      \<lparr>polarity = (\<lambda>t. if t = ''unsafe but big'' then - 3 / 5 else 2 / 5),
       subjectivity = (\<lambda>t. 1 / 2),
       classifier = (\<lambda>t. (''POSITIVE'', 9 / 10)),
       sent_tokenize = (\<lambda>t. [t]),
       word_tokenize = maximal_runs (\<lambda>c. c \<noteq> CHR '' '') [],
       pos_tag = map (\<lambda>w. (w, if w = ''u.s'' then ''NN''
                              else if w = ''big'' \<or> w = ''unsafe'' then ''JJ'' else ''XX'')),
       to_date = (\<lambda>t. Inr (take 10 t)),
       re_engine = (\<lambda>pat s. Inl ReError)\<rparr>;
     comments_data =
       [\<lparr>cm_text = ''the u.s is big'', cm_likes = 2,
          cm_published_at = ''2024-05-01T10:00:00Z'', cm_is_reply = False\<rparr>,
        \<lparr>cm_text = ''unsafe but big'', cm_likes = 4,
          cm_published_at = ''2024-05-01T11:00:00Z'', cm_is_reply = False\<rparr>]
   in (case analyze_comments tools comments_data of Inl e \<Rightarrow> None | Inr r \<Rightarrow> Some (themes r))
        = Some \<lparr>top_topics = [(''big'', 2), (''u.s'', 1), (''unsafe'', 1)],
                 topic_sentiment = [(''big'', - 1 / 10), (''u.s'', - 1 / 10), (''unsafe'', - 3 / 5)]\<rparr>
      \<and> contains_ci ''u.s'' ''unsafe but big'' = False
      \<and> spec_topic_sentiment (polarity tools) (map cm_text comments_data) ''u.s'' = Some (2 / 5))"
proof -
  define tools where "tools =
      \<lparr>polarity = (\<lambda>t. if t = ''unsafe but big'' then - 3 / 5 else 2 / 5 :: real),
       subjectivity = (\<lambda>t. 1 / 2),
       classifier = (\<lambda>t. (''POSITIVE'', 9 / 10)),
       sent_tokenize = (\<lambda>t. [t]),
       word_tokenize = maximal_runs (\<lambda>c. c \<noteq> CHR '' '') [],
       pos_tag = map (\<lambda>w. (w, if w = ''u.s'' then ''NN''
                              else if w = ''big'' \<or> w = ''unsafe'' then ''JJ'' else ''XX'')),
       to_date = (\<lambda>t. Inr (take 10 t)),
       re_engine = (\<lambda>pat s. Inl ReError)\<rparr>"
  define comments_data where "comments_data =
       [\<lparr>cm_text = ''the u.s is big'', cm_likes = 2,
          cm_published_at = ''2024-05-01T10:00:00Z'', cm_is_reply = False\<rparr>,
        \<lparr>cm_text = ''unsafe but big'', cm_likes = 4,
          cm_published_at = ''2024-05-01T11:00:00Z'', cm_is_reply = False\<rparr>]"
  have texts: "map cm_text comments_data = [''the u.s is big'', ''unsafe but big'']"
    and ne: "comments_data \<noteq> []"
    and dates: "map_result (to_date tools) (map cm_published_at comments_data)
        = Inr [''2024-05-01'', ''2024-05-01'']"
    by (simp_all add: comments_data_def tools_def)
  have pol: "polarity tools ''the u.s is big'' = 2 / 5" "polarity tools ''unsafe but big'' = - 3 / 5"
    by (simp_all add: tools_def)
  have c1: "contains_ci ''u.s'' ''unsafe but big'' = False"
    by code_simp
  have c2: "contains_ci ''u.s'' ''the u.s is big'' = True"
    by code_simp
  have s1: "search_from ''u.s'' ''unsafe but big''" "search_from ''u.s'' ''the u.s is big''"
    "search_from ''big'' ''unsafe but big''" "search_from ''big'' ''the u.s is big''"
    "search_from ''unsafe'' ''unsafe but big''" "\<not> search_from ''unsafe'' ''the u.s is big''"
    by code_simp+
  have sp: "\<not> list_ex (\<lambda>c. c \<in> set re_other_special) ''u.s''"
    "\<not> list_ex (\<lambda>c. c \<in> set re_other_special) ''big''"
    "\<not> list_ex (\<lambda>c. c \<in> set re_other_special) ''unsafe''"
    by (simp_all add: re_other_special_def)
  have sc: "str_contains (re_engine tools) ''u.s'' ''unsafe but big'' = Inr True"
    "str_contains (re_engine tools) ''u.s'' ''the u.s is big'' = Inr True"
    "str_contains (re_engine tools) ''big'' ''unsafe but big'' = Inr True"
    "str_contains (re_engine tools) ''big'' ''the u.s is big'' = Inr True"
    "str_contains (re_engine tools) ''unsafe'' ''unsafe but big'' = Inr True"
    "str_contains (re_engine tools) ''unsafe'' ''the u.s is big'' = Inr False"
    unfolding str_contains_def using sp s1 by simp_all
  have ats: "add_topic_sentiment tools [''the u.s is big'', ''unsafe but big''] [''big'', ''u.s'', ''unsafe'']
      = Inr [(''big'', - 1 / 10), (''u.s'', - 1 / 10), (''unsafe'', - 3 / 5)]"
    by (simp add: sc pol)
  have w1: "word_tokenize tools ''the u.s is big'' = [''the'', ''u.s'', ''is'', ''big'']"
    and w2: "word_tokenize tools ''unsafe but big'' = [''unsafe'', ''but'', ''big'']"
    by (simp_all add: tools_def)
  have t1: "group_topics (pos_tag tools [''the'', ''u.s'', ''is'', ''big'']) [] = [''u.s'', ''big'']"
    and t2: "group_topics (pos_tag tools [''unsafe'', ''but'', ''big'']) [] = [''unsafe'', ''big'']"
    by (simp_all add: tools_def noun_or_adjective_def)
  have st: "sent_tokenize tools = (\<lambda>t. [t])" by (simp add: tools_def)
  have topics: "extract_topics tools [''the u.s is big'', ''unsafe but big'']
      = [''u.s'', ''big'', ''unsafe'', ''big'']"
    by (simp add: extract_topics_def st w1 w2 t1 t2)
  have top: "most_common 10 (counter [''u.s'', ''big'', ''unsafe'', ''big''])
      = [(''big'', 2), (''u.s'', 1), (''unsafe'', 1)]"
    by (simp add: counter_def most_common_def)
  have themes: "(case analyze_comments tools comments_data of Inl e \<Rightarrow> None | Inr r \<Rightarrow> Some (themes r))
        = Some \<lparr>top_topics = [(''big'', 2), (''u.s'', 1), (''unsafe'', 1)],
                 topic_sentiment = [(''big'', - 1 / 10), (''u.s'', - 1 / 10), (''unsafe'', - 3 / 5)]\<rparr>"
    using ne by (simp add: analyze_comments_def Let_def texts dates topics top ats
        del: add_topic_sentiment.simps)
  have spec: "spec_topic_sentiment (polarity tools) (map cm_text comments_data) ''u.s'' = Some (2 / 5)"
    by (simp add: spec_topic_sentiment_def texts c1 c2 pol mean_r_def)
  have "(case analyze_comments tools comments_data of Inl e \<Rightarrow> None | Inr r \<Rightarrow> Some (themes r))
        = Some \<lparr>top_topics = [(''big'', 2), (''u.s'', 1), (''unsafe'', 1)],
                 topic_sentiment = [(''big'', - 1 / 10), (''u.s'', - 1 / 10), (''unsafe'', - 3 / 5)]\<rparr>
      \<and> contains_ci ''u.s'' ''unsafe but big'' = False
      \<and> spec_topic_sentiment (polarity tools) (map cm_text comments_data) ''u.s'' = Some (2 / 5)"
    using themes c1 spec by simp
  then show ?thesis
    unfolding tools_def comments_data_def Let_def .
qed

end
